theory Spec2Isabelle
  imports Complex_Main "HOL-Library.Multiset"
begin

section \<open>Errors raised by the notebooks' code\<close>

text \<open>
  The notebooks are Python. An exception aborts the cell that raises it, so every
  function that can raise returns \<open>error + 'a\<close>, with \<open>Inl\<close> for the exception.
\<close>

datatype error =
    ValueError string
  | ZeroDivisionError
  | AttributeError
  | IndexError
  | RuntimeError

section \<open>Label encoding\<close>

text \<open>
  \<^verbatim>\<open>
  def encode_species(species):
      if species == 'setosa':
          return 0
      if species == 'versicolor':
          return 1
      if species == 'virginica':
          return 2
      else:
          raise ValueError('Species \'{}\' is not recognized.'.format(species))
  \<close>
  The message quotes the offending string between two apostrophes (character 0x27).
\<close>

definition not_recognized :: "string \<Rightarrow> error" where
  "not_recognized species =
     ValueError (''Species '' @ [CHR 0x27] @ species @ [CHR 0x27] @ '' is not recognized.'')"

definition encode_species :: "string \<Rightarrow> error + int" where
  "encode_species species =
     (if species = ''setosa'' then Inr 0
      else if species = ''versicolor'' then Inr 1
      else if species = ''virginica'' then Inr 2
      else Inl (not_recognized species))"

text \<open>
  \<^verbatim>\<open>
  temp = map(encode_species, dataset['species'].values)
  y = np.array(list(temp))
  \<close>
  \<open>list\<close> forces the lazy \<open>map\<close> from left to right; the first exception ends it.
\<close>

fun encode_all :: "string list \<Rightarrow> error + int list" where
  "encode_all [] = Inr []"
| "encode_all (s # ss) =
     (case encode_species s of
        Inl e \<Rightarrow> Inl e
      | Inr c \<Rightarrow> (case encode_all ss of Inl e \<Rightarrow> Inl e | Inr cs \<Rightarrow> Inr (c # cs)))"

section \<open>Library operations the notebooks call\<close>

subsection \<open>Maximum selection\<close>

text \<open>
  Modelled from the spec: \<open>argmax\<close> is PyTorch's, absent from the repository. The spec's
  words are: the hard prediction is whichever index the maximum-selection encounters first
  in index order. The scan below walks the scores in index order and replaces the running
  best only by a strictly larger score. A row without scores has no maximum: PyTorch raises.
\<close>

fun argmax_scan :: "real list \<Rightarrow> nat \<Rightarrow> nat \<Rightarrow> real \<Rightarrow> nat" where
  "argmax_scan [] i best best_score = best"
| "argmax_scan (x # xs) i best best_score =
     (if best_score < x then argmax_scan xs (Suc i) i x
      else argmax_scan xs (Suc i) best best_score)"

definition argmax :: "real list \<Rightarrow> error + nat" where
  "argmax scores = (case scores of [] \<Rightarrow> Inl IndexError | x # xs \<Rightarrow> Inr (argmax_scan xs 1 0 x))"

text \<open>\<^verbatim>\<open>pred.argmax(dim=1)\<close>: one maximum selection per row of the batch of predictions.\<close>

fun argmax_dim1 :: "real list list \<Rightarrow> error + int list" where
  "argmax_dim1 [] = Inr []"
| "argmax_dim1 (row # rows) =
     (case argmax row of
        Inl e \<Rightarrow> Inl e
      | Inr i \<Rightarrow> (case argmax_dim1 rows of Inl e \<Rightarrow> Inl e | Inr js \<Rightarrow> Inr (int i # js)))"

subsection \<open>Comparing and counting\<close>

text \<open>
  \<^verbatim>\<open>a == b\<close> on two one-dimensional tensors compares elementwise; a tensor of one element
  is broadcast against the other; any other pair of different lengths raises.
\<close>

definition tensor_eq :: "int list \<Rightarrow> int list \<Rightarrow> error + bool list" where
  "tensor_eq a b =
     (if length a = length b then Inr (map (\<lambda>(x, y). x = y) (zip a b))
      else if length a = 1 then Inr (map (\<lambda>y. hd a = y) b)
      else if length b = 1 then Inr (map (\<lambda>x. x = hd b) a)
      else Inl RuntimeError)"

text \<open>
  \<^verbatim>\<open>sum(t).item()\<close> with Python's built-in \<open>sum\<close>: it adds the elements of the tensor to
  the integer 0. On an empty tensor the result is that integer, which has no \<open>item\<close>.
\<close>

definition sum_item :: "bool list \<Rightarrow> error + int" where
  "sum_item t = (if t = [] then Inl AttributeError else Inr (int (length (filter id t))))"

text \<open>\<^verbatim>\<open>sum(a == b).item()\<close>\<close>

definition sum_eq_item :: "int list \<Rightarrow> int list \<Rightarrow> error + int" where
  "sum_eq_item a b = (case tensor_eq a b of Inl e \<Rightarrow> Inl e | Inr eqs \<Rightarrow> sum_item eqs)"

text \<open>\<^verbatim>\<open>sum(pred.argmax(dim=1) == b_y).item()\<close>\<close>

definition n_correct_in :: "real list list \<Rightarrow> int list \<Rightarrow> error + int" where
  "n_correct_in pred b_y =
     (case argmax_dim1 pred of
        Inl e \<Rightarrow> Inl e
      | Inr hard_preds \<Rightarrow> sum_eq_item hard_preds b_y)"

text \<open>Python's \<open>/\<close> on two integers, and \<^verbatim>\<open>sum(losses)/len(losses)\<close> on a list of numbers.\<close>

definition truediv :: "int \<Rightarrow> int \<Rightarrow> error + real" where
  "truediv a b = (if b = 0 then Inl ZeroDivisionError else Inr (real_of_int a / real_of_int b))"

definition py_sum :: "real list \<Rightarrow> real" where
  "py_sum xs = foldl (+) 0 xs"

definition mean_of :: "real list \<Rightarrow> error + real" where
  "mean_of losses =
     (if length losses = 0 then Inl ZeroDivisionError
      else Inr (py_sum losses / real (length losses)))"

subsection \<open>Datasets and data loaders\<close>

text \<open>
  Modelled from the spec: \<open>DataLoader\<close> is PyTorch's. A dataset is an ordered sequence of
  (features, target) pairs. Each epoch the loader draws an index order from its sampler
  (\<open>0, 1, ...\<close> without \<open>shuffle\<close>, a permutation of the indices with it), cuts the samples
  in that order into consecutive runs of \<open>batch_size\<close>, the last one possibly shorter, and
  hands each run over as a pair (features of the batch, targets of the batch).
  A batch size that is not positive is refused when the loader is built.
\<close>

record ('x, 't) data_loader =
  dataset :: "('x \<times> 't) list"
  batch_size :: nat
  shuffle :: bool

definition DataLoader :: "('x \<times> 't) list \<Rightarrow> int \<Rightarrow> bool \<Rightarrow> error + ('x, 't) data_loader" where
  "DataLoader ds bs sh =
     (if bs \<le> 0 then Inl (ValueError ''batch_size should be a positive integer value'')
      else Inr \<lparr>dataset = ds, batch_size = nat bs, shuffle = sh\<rparr>)"

definition sampler_order :: "('x, 't) data_loader \<Rightarrow> nat list \<Rightarrow> bool" where
  "sampler_order dl order =
     (if shuffle dl then mset order = mset [0..<length (dataset dl)]
      else order = [0..<length (dataset dl)])"

function batched :: "nat \<Rightarrow> 'a list \<Rightarrow> 'a list list" where
  "batched n xs = (if n = 0 \<or> xs = [] then [] else take n xs # batched n (drop n xs))"
  by pat_completeness auto
termination
  by (relation "measure (\<lambda>(n, xs). length xs)") auto

definition collate :: "('x \<times> 't) list \<Rightarrow> 'x list \<times> 't list" where
  "collate samples = (map fst samples, map snd samples)"

definition iter_batches :: "('x, 't) data_loader \<Rightarrow> nat list \<Rightarrow> ('x list \<times> 't list) list" where
  "iter_batches dl order =
     map collate (batched (batch_size dl) (map (\<lambda>i. dataset dl ! i) order))"

section \<open>Model, loss and optimizer\<close>

text \<open>
  The model, the loss with its automatic differentiation, and the optimizer are the
  library's (\<open>nn.Linear\<close>, \<open>CrossEntropyLoss\<close> or \<open>MSELoss\<close>, \<open>Adam\<close> or \<open>SGD\<close>); the loops only
  call them, so they are parameters here:
  \<^item> \<open>forward p b_x\<close> is \<^verbatim>\<open>model(b_x)\<close> under the parameters \<open>p\<close>, one row of scores per sample;
  \<^item> \<open>loss_fn pred b_y\<close> is the scalar loss;
  \<^item> \<open>autograd p b_x b_y\<close> is the gradient of that loss with respect to \<open>p\<close>;
  \<^item> \<open>opt_update s p g\<close> is the optimizer's update rule: from its own state \<open>s\<close>, the
    parameters and the gradient buffer it reads, the new state and the new parameters.
  Numbers are real numbers here, not floating-point numbers.
\<close>

record ('p, 'g, 'o, 'x, 't) collaborators =
  forward :: "'p \<Rightarrow> 'x list \<Rightarrow> real list list"
  loss_fn :: "real list list \<Rightarrow> 't list \<Rightarrow> real"
  autograd :: "'p \<Rightarrow> 'x list \<Rightarrow> 't list \<Rightarrow> 'g"
  opt_update :: "'o \<Rightarrow> 'p \<Rightarrow> 'g \<Rightarrow> 'o \<times> 'p"

text \<open>
  What the loops mutate: the parameters, the gradient buffer attached to them (\<open>.grad\<close>),
  and the optimizer's own state.
\<close>

record ('p, 'g, 'o) model_state =
  params :: 'p
  grad :: 'g
  opt_state :: 'o

text \<open>\<^verbatim>\<open>loss.backward()\<close> adds the gradient of this batch's loss to the buffer.\<close>

definition loss_backward ::
  "('p, 'g::monoid_add, 'o, 'x, 't) collaborators \<Rightarrow> 'x list \<times> 't list
     \<Rightarrow> ('p, 'g, 'o) model_state \<Rightarrow> ('p, 'g, 'o) model_state" where
  "loss_backward lib b st = st\<lparr>grad := grad st + autograd lib (params st) (fst b) (snd b)\<rparr>"

text \<open>\<^verbatim>\<open>optimizer.step()\<close> reads the buffer and replaces the parameters.\<close>

definition optimizer_step ::
  "('p, 'g::monoid_add, 'o, 'x, 't) collaborators
     \<Rightarrow> ('p, 'g, 'o) model_state \<Rightarrow> ('p, 'g, 'o) model_state" where
  "optimizer_step lib st =
     (case opt_update lib (opt_state st) (params st) (grad st) of
        (s', p') \<Rightarrow> st\<lparr>params := p', opt_state := s'\<rparr>)"

text \<open>\<^verbatim>\<open>optimizer.zero_grad()\<close> clears the buffer.\<close>

definition optimizer_zero_grad :: "('p, 'g::monoid_add, 'o) model_state \<Rightarrow> ('p, 'g, 'o) model_state" where
  "optimizer_zero_grad st = st\<lparr>grad := 0\<rparr>"


section \<open>The training loops\<close>

subsection \<open>The loop over the epochs\<close>

text \<open>
  All three loops have the shape
  \<^verbatim>\<open>
  for epoch in range(20):
      <body>
      print(<line>)
  \<close>
  The body changes the state and yields the line to print, or raises; the printed lines
  are collected in \<open>out\<close> together with their epoch numbers. The notebooks run the epochs
  \<open>[0..<20]\<close>.
\<close>

fun for_epochs ::
  "(nat \<Rightarrow> 's \<Rightarrow> error + ('s \<times> 'l)) \<Rightarrow> nat list \<Rightarrow> 's \<Rightarrow> (nat \<times> 'l) list
     \<Rightarrow> error + ('s \<times> (nat \<times> 'l) list)" where
  "for_epochs body [] st out = Inr (st, out)"
| "for_epochs body (epoch # epochs) st out =
     (case body epoch st of
        Inl e \<Rightarrow> Inl e
      | Inr (st', line) \<Rightarrow> for_epochs body epochs st' (out @ [(epoch, line)]))"

subsection \<open>Loss only\<close>

text \<open>
  The loop of the linear-regression notebook and the first loop of the classification
  notebook have the same body:
  \<^verbatim>\<open>
  for epoch in range(20):
      losses = []
      for b_x, b_y in t_data_loader:
          pred = model(b_x)
          loss = loss_fn(pred, b_y)
          losses.append(loss.item())

          loss.backward()
          optimizer.step()
          optimizer.zero_grad()
      avg_loss = sum(losses)/len(losses)
      print('Epoch: {}\tAvg loss: {}'.format(epoch, avg_loss))
  \<close>
  \<open>train_batches\<close> is the inner loop, with the state and the list \<open>losses\<close> threaded
  through; \<open>train_epoch\<close> is the body of the outer loop, and its line is avg_loss;
  \<open>train_loop\<close> is the outer loop. \<open>orders epoch\<close> is the index order the loader's sampler
  draws in that epoch.
\<close>

fun train_batches ::
  "('p, 'g::monoid_add, 'o, 'x, 't) collaborators \<Rightarrow> ('x list \<times> 't list) list
     \<Rightarrow> ('p, 'g, 'o) model_state \<Rightarrow> real list \<Rightarrow> ('p, 'g, 'o) model_state \<times> real list" where
  "train_batches lib [] st losses = (st, losses)"
| "train_batches lib ((b_x, b_y) # rest) st losses =
     (let pred = forward lib (params st) b_x;
          loss = loss_fn lib pred b_y;
          losses' = losses @ [loss];
          st1 = loss_backward lib (b_x, b_y) st;
          st2 = optimizer_step lib st1;
          st3 = optimizer_zero_grad st2
      in train_batches lib rest st3 losses')"

definition train_epoch ::
  "('p, 'g::monoid_add, 'o, 'x, 't) collaborators \<Rightarrow> ('x, 't) data_loader \<Rightarrow> nat list
     \<Rightarrow> ('p, 'g, 'o) model_state \<Rightarrow> error + (('p, 'g, 'o) model_state \<times> real)" where
  "train_epoch lib dl order st =
     (case train_batches lib (iter_batches dl order) st [] of
        (st', losses) \<Rightarrow>
          (case mean_of losses of
             Inl e \<Rightarrow> Inl e
           | Inr avg_loss \<Rightarrow> Inr (st', avg_loss)))"

definition train_loop ::
  "('p, 'g::monoid_add, 'o, 'x, 't) collaborators \<Rightarrow> ('x, 't) data_loader \<Rightarrow> (nat \<Rightarrow> nat list)
     \<Rightarrow> nat list \<Rightarrow> ('p, 'g, 'o) model_state \<Rightarrow> (nat \<times> real) list
     \<Rightarrow> error + (('p, 'g, 'o) model_state \<times> (nat \<times> real) list)" where
  "train_loop lib dl orders epochs st out =
     for_epochs (\<lambda>epoch st. train_epoch lib dl (orders epoch) st) epochs st out"

subsection \<open>Loss and accuracy\<close>

text \<open>
  \<^verbatim>\<open>
  for epoch in range(20):
      losses = []
      n_correct = 0
      for b_x, b_y in t_data_loader:
          pred = model(b_x)
          loss = loss_fn(pred, b_y)
          losses.append(loss.item())

          # Compute number of correct predictions
          hard_preds = pred.argmax(dim=1)
          n_correct += sum(pred.argmax(dim=1) == b_y).item()

          loss.backward()
          optimizer.step()
          optimizer.zero_grad()

      accuracy = n_correct/len(t_dataset)
      avg_loss = sum(losses)/len(losses)
      print('Epoch: {}\tAvg loss: {:.3f} \tAccuracy: {:.2f}'.format(epoch, avg_loss, accuracy))
  \<close>
  A printed line is the triple (epoch, avg_loss, accuracy).
\<close>

fun train_batches_acc ::
  "('p, 'g::monoid_add, 'o, 'x, int) collaborators \<Rightarrow> ('x list \<times> int list) list
     \<Rightarrow> ('p, 'g, 'o) model_state \<Rightarrow> real list \<Rightarrow> int
     \<Rightarrow> error + (('p, 'g, 'o) model_state \<times> real list \<times> int)" where
  "train_batches_acc lib [] st losses n_correct = Inr (st, losses, n_correct)"
| "train_batches_acc lib ((b_x, b_y) # rest) st losses n_correct =
     (let pred = forward lib (params st) b_x;
          loss = loss_fn lib pred b_y;
          losses' = losses @ [loss]
      in case n_correct_in pred b_y of
           Inl e \<Rightarrow> Inl e
         | Inr c \<Rightarrow>
             (let n_correct' = n_correct + c;
                  st1 = loss_backward lib (b_x, b_y) st;
                  st2 = optimizer_step lib st1;
                  st3 = optimizer_zero_grad st2
              in train_batches_acc lib rest st3 losses' n_correct'))"

definition train_epoch_acc ::
  "('p, 'g::monoid_add, 'o, 'x, int) collaborators \<Rightarrow> ('x, int) data_loader \<Rightarrow> nat list
     \<Rightarrow> ('p, 'g, 'o) model_state \<Rightarrow> error + (('p, 'g, 'o) model_state \<times> real \<times> real)" where
  "train_epoch_acc lib dl order st =
     (case train_batches_acc lib (iter_batches dl order) st [] 0 of
        Inl e \<Rightarrow> Inl e
      | Inr (st', losses, n_correct) \<Rightarrow>
          (case truediv n_correct (int (length (dataset dl))) of
             Inl e \<Rightarrow> Inl e
           | Inr accuracy \<Rightarrow>
               (case mean_of losses of
                  Inl e \<Rightarrow> Inl e
                | Inr avg_loss \<Rightarrow> Inr (st', avg_loss, accuracy))))"

definition train_loop_acc ::
  "('p, 'g::monoid_add, 'o, 'x, int) collaborators \<Rightarrow> ('x, int) data_loader \<Rightarrow> (nat \<Rightarrow> nat list)
     \<Rightarrow> nat list \<Rightarrow> ('p, 'g, 'o) model_state \<Rightarrow> (nat \<times> real \<times> real) list
     \<Rightarrow> error + (('p, 'g, 'o) model_state \<times> (nat \<times> real \<times> real) list)" where
  "train_loop_acc lib dl orders epochs st out =
     for_epochs (\<lambda>epoch st. train_epoch_acc lib dl (orders epoch) st) epochs st out"

subsection \<open>Training and validation\<close>

text \<open>
  The third loop of the classification notebook trains on \<open>train_t_data_loader\<close> as above
  and then, in the same epoch, evaluates on \<open>val_t_data_loader\<close>:
  \<^verbatim>\<open>
      losses = []
      n_correct = 0
      with torch.no_grad():
          for b_x, b_y in val_t_data_loader:
              pred = model(b_x)
              loss = loss_fn(pred, b_y)
              losses.append(loss.item())

              hard_preds = pred.argmax(dim=1)
              n_correct += sum(pred.argmax(dim=1) == b_y).item()
          val_accuracy = n_correct/len(val_t_dataset)
          val_avg_loss = sum(losses)/len(losses)
  \<close>
  The state is threaded through the validation pass as through the training pass, so
  that what the pass does to it is a theorem and not a matter of typing.
  A printed line is (epoch, train_avg_loss, val_avg_loss, train_accuracy, val_accuracy).
\<close>

fun val_batches ::
  "('p, 'g::monoid_add, 'o, 'x, int) collaborators \<Rightarrow> ('x list \<times> int list) list
     \<Rightarrow> ('p, 'g, 'o) model_state \<Rightarrow> real list \<Rightarrow> int
     \<Rightarrow> error + (('p, 'g, 'o) model_state \<times> real list \<times> int)" where
  "val_batches lib [] st losses n_correct = Inr (st, losses, n_correct)"
| "val_batches lib ((b_x, b_y) # rest) st losses n_correct =
     (let pred = forward lib (params st) b_x;
          loss = loss_fn lib pred b_y;
          losses' = losses @ [loss]
      in case n_correct_in pred b_y of
           Inl e \<Rightarrow> Inl e
         | Inr c \<Rightarrow> val_batches lib rest st losses' (n_correct + c))"

definition val_pass ::
  "('p, 'g::monoid_add, 'o, 'x, int) collaborators \<Rightarrow> ('x, int) data_loader \<Rightarrow> nat list
     \<Rightarrow> ('p, 'g, 'o) model_state \<Rightarrow> error + (('p, 'g, 'o) model_state \<times> real \<times> real)" where
  "val_pass lib dl order st =
     (case val_batches lib (iter_batches dl order) st [] 0 of
        Inl e \<Rightarrow> Inl e
      | Inr (st', losses, n_correct) \<Rightarrow>
          (case truediv n_correct (int (length (dataset dl))) of
             Inl e \<Rightarrow> Inl e
           | Inr val_accuracy \<Rightarrow>
               (case mean_of losses of
                  Inl e \<Rightarrow> Inl e
                | Inr val_avg_loss \<Rightarrow> Inr (st', val_avg_loss, val_accuracy))))"

definition train_val_epoch ::
  "('p, 'g::monoid_add, 'o, 'x, int) collaborators \<Rightarrow> ('x, int) data_loader \<Rightarrow> ('x, int) data_loader
     \<Rightarrow> nat list \<Rightarrow> nat list \<Rightarrow> ('p, 'g, 'o) model_state
     \<Rightarrow> error + (('p, 'g, 'o) model_state \<times> real \<times> real \<times> real \<times> real)" where
  "train_val_epoch lib train_dl val_dl train_order val_order st =
     (case train_epoch_acc lib train_dl train_order st of
        Inl e \<Rightarrow> Inl e
      | Inr (st', train_avg_loss, train_accuracy) \<Rightarrow>
          (case val_pass lib val_dl val_order st' of
             Inl e \<Rightarrow> Inl e
           | Inr (st'', val_avg_loss, val_accuracy) \<Rightarrow>
               Inr (st'', train_avg_loss, val_avg_loss, train_accuracy, val_accuracy)))"

definition train_val_loop ::
  "('p, 'g::monoid_add, 'o, 'x, int) collaborators \<Rightarrow> ('x, int) data_loader \<Rightarrow> ('x, int) data_loader
     \<Rightarrow> (nat \<Rightarrow> nat list) \<Rightarrow> (nat \<Rightarrow> nat list) \<Rightarrow> nat list \<Rightarrow> ('p, 'g, 'o) model_state
     \<Rightarrow> (nat \<times> real \<times> real \<times> real \<times> real) list
     \<Rightarrow> error + (('p, 'g, 'o) model_state \<times> (nat \<times> real \<times> real \<times> real \<times> real) list)" where
  "train_val_loop lib train_dl val_dl orders val_orders epochs st out =
     for_epochs
       (\<lambda>epoch st. train_val_epoch lib train_dl val_dl (orders epoch) (val_orders epoch) st)
       epochs st out"

section \<open>Splitting, test accuracy and the confusion matrix\<close>

subsection \<open>Splits\<close>

text \<open>
  Modelled from the spec: \<open>random_split\<close> is PyTorch's and \<open>train_test_split\<close> is
  scikit-learn's. The spec's words are: a split is a partition of a dataset into disjoint
  subsets that preserves each sample's (features, target) pairing. Both libraries draw a
  random permutation of the indices and cut it into consecutive runs of the requested
  sizes; a subset reads its samples from the dataset through its run of indices. The
  permutation is a parameter here.
  \<^verbatim>\<open>train_t_dataset, val_t_dataset = random_split(t_dataset, [90, 15])\<close>
\<close>

fun split_at :: "nat list \<Rightarrow> 'a list \<Rightarrow> 'a list list" where
  "split_at [] xs = []"
| "split_at (n # ns) xs = take n xs # split_at ns (drop n xs)"

definition random_split :: "'a list \<Rightarrow> nat list \<Rightarrow> nat list \<Rightarrow> error + nat list list" where
  "random_split ds lengths perm =
     (if sum_list lengths \<noteq> length ds
      then Inl (ValueError ''Sum of input lengths does not equal the length of the input dataset!'')
      else Inr (split_at lengths perm))"

definition subset :: "'a list \<Rightarrow> nat list \<Rightarrow> 'a list" where
  "subset ds indices = map (\<lambda>i. ds ! i) indices"

text \<open>
  Modelled from the spec: \<open>train_test_split\<close> is scikit-learn's.
  \<^verbatim>\<open>x_train, x_test, y_train, y_test = train_test_split(x, y, test_size=0.3, random_state=10)\<close>
  \<open>n_test\<close> is the number of test samples the library derives from \<open>test_size\<close> (45 of the
  150 samples of the notebook); the training samples are the rest. The first \<open>n_test\<close>
  indices of the permutation are the test set, the following ones the training set, and
  the features and the targets are read through the same indices.
\<close>

definition train_test_split ::
  "'a list \<Rightarrow> 'b list \<Rightarrow> nat \<Rightarrow> nat list \<Rightarrow> error + ('a list \<times> 'a list \<times> 'b list \<times> 'b list)" where
  "train_test_split x y n_test perm =
     (if length x \<noteq> length y
      then Inl (ValueError ''Found input variables with inconsistent numbers of samples'')
      else if length x \<le> n_test
      then Inl (ValueError ''the resulting train set will be empty'')
      else
        (let n_train = length x - n_test;
             test = take n_test perm;
             train = take n_train (drop n_test perm)
         in Inr (subset x train, subset x test, subset y train, subset y test)))"

subsection \<open>Accuracy on the test set\<close>

text \<open>
  \<^verbatim>\<open>
  preds = model(test_samples).argmax(dim=1)
  acc = sum(preds == test_labels).item()/len(preds)
  \<close>
\<close>

definition test_accuracy :: "int list \<Rightarrow> int list \<Rightarrow> error + real" where
  "test_accuracy preds test_labels =
     (case sum_eq_item preds test_labels of
        Inl e \<Rightarrow> Inl e
      | Inr c \<Rightarrow> truediv c (int (length preds)))"

definition model_accuracy ::
  "('p, 'g, 'o, 'x, int) collaborators \<Rightarrow> 'p \<Rightarrow> 'x list \<Rightarrow> int list \<Rightarrow> error + real" where
  "model_accuracy lib p test_samples test_labels =
     (case argmax_dim1 (forward lib p test_samples) of
        Inl e \<Rightarrow> Inl e
      | Inr preds \<Rightarrow> test_accuracy preds test_labels)"

subsection \<open>Confusion matrix\<close>

text \<open>
  Modelled from the spec: \<open>confusion_matrix\<close> is scikit-learn's. The labels are the sorted
  distinct values that occur among the true and the predicted labels; the entry in row \<open>i\<close>
  and column \<open>j\<close> counts the samples whose first-argument label is the \<open>i\<close>-th label and
  whose second-argument label is the \<open>j\<close>-th. The notebook calls it as
  \<^verbatim>\<open>confusion_matrix(test_labels, preds)\<close>. Vectors of different lengths are refused.
\<close>

definition unique_labels :: "int list \<Rightarrow> int list \<Rightarrow> int list" where
  "unique_labels y_true y_pred = sort (remdups (y_true @ y_pred))"

definition confusion_matrix :: "int list \<Rightarrow> int list \<Rightarrow> error + nat list list" where
  "confusion_matrix y_true y_pred =
     (if length y_true \<noteq> length y_pred
      then Inl (ValueError ''Found input variables with inconsistent numbers of samples'')
      else
        (let labels = unique_labels y_true y_pred
         in Inr (map (\<lambda>i. map (\<lambda>j. length (filter (\<lambda>(t, p). t = i \<and> p = j) (zip y_true y_pred)))
                            labels)
                   labels)))"

definition matrix_sum :: "nat list list \<Rightarrow> nat" where
  "matrix_sum m = sum_list (map sum_list m)"

definition trace :: "nat list list \<Rightarrow> nat" where
  "trace m = sum_list (map (\<lambda>i. m ! i ! i) [0..<length m])"

section \<open>Reference definitions\<close>

text \<open>
  The definitions of this section are not translations of code: they say, in the words of
  the specification, what the loops are claimed to compute, and the theorems compare the
  loops with them.
\<close>

text \<open>What one pass through the body of the inner loop does to the state.\<close>

definition batch_update ::
  "('p, 'g::monoid_add, 'o, 'x, 't) collaborators \<Rightarrow> 'x list \<times> 't list
     \<Rightarrow> ('p, 'g, 'o) model_state \<Rightarrow> ('p, 'g, 'o) model_state" where
  "batch_update lib b st = optimizer_zero_grad (optimizer_step lib (loss_backward lib b st))"

text \<open>
  One optimizer step that reads the gradient of this batch alone, computed at the current
  parameters, and leaves an empty buffer: no earlier gradient enters it.
\<close>

definition fresh_step ::
  "('p, 'g::monoid_add, 'o, 'x, 't) collaborators \<Rightarrow> 'x list \<times> 't list
     \<Rightarrow> ('p, 'g, 'o) model_state \<Rightarrow> ('p, 'g, 'o) model_state" where
  "fresh_step lib b st =
     (case opt_update lib (opt_state st) (params st) (autograd lib (params st) (fst b) (snd b)) of
        (s', p') \<Rightarrow> \<lparr>params = p', grad = 0, opt_state = s'\<rparr>)"

text \<open>What one epoch of training does to the state, and the state before the k-th epoch.\<close>

definition epoch_update ::
  "('p, 'g::monoid_add, 'o, 'x, 't) collaborators \<Rightarrow> ('x, 't) data_loader \<Rightarrow> nat list
     \<Rightarrow> ('p, 'g, 'o) model_state \<Rightarrow> ('p, 'g, 'o) model_state" where
  "epoch_update lib dl order st = foldl (\<lambda>s b. batch_update lib b s) st (iter_batches dl order)"

definition state_before ::
  "('p, 'g::monoid_add, 'o, 'x, 't) collaborators \<Rightarrow> ('x, 't) data_loader \<Rightarrow> (nat \<Rightarrow> nat list)
     \<Rightarrow> nat list \<Rightarrow> ('p, 'g, 'o) model_state \<Rightarrow> nat \<Rightarrow> ('p, 'g, 'o) model_state" where
  "state_before lib dl orders epochs st k =
     foldl (\<lambda>s e. epoch_update lib dl (orders e) s) st (take k epochs)"

text \<open>The batches of a sequence of epochs, in the order the loop meets them.\<close>

definition all_batches :: "('x, 't) data_loader \<Rightarrow> (nat \<Rightarrow> nat list) \<Rightarrow> nat list \<Rightarrow> ('x list \<times> 't list) list" where
  "all_batches dl orders epochs = concat (map (\<lambda>e. iter_batches dl (orders e)) epochs)"

text \<open>
  The per-batch losses of one epoch: each batch's loss under the parameters held when the
  batch is met.
\<close>

fun batch_losses ::
  "('p, 'g::monoid_add, 'o, 'x, 't) collaborators \<Rightarrow> ('x list \<times> 't list) list
     \<Rightarrow> ('p, 'g, 'o) model_state \<Rightarrow> real list" where
  "batch_losses lib [] st = []"
| "batch_losses lib (b # bs) st =
     loss_fn lib (forward lib (params st) (fst b)) (snd b) # batch_losses lib bs (batch_update lib b st)"

text \<open>
  The number of samples of a batch whose predicted class (the index of the maximum
  predicted score) equals the true class.
\<close>

definition predicts :: "real list \<Rightarrow> int \<Rightarrow> bool" where
  "predicts scores y = (case argmax scores of Inl e \<Rightarrow> False | Inr i \<Rightarrow> int i = y)"

definition hits :: "real list list \<Rightarrow> int list \<Rightarrow> nat" where
  "hits pred b_y = length (filter (\<lambda>(scores, y). predicts scores y) (zip pred b_y))"

fun batch_hits ::
  "('p, 'g::monoid_add, 'o, 'x, int) collaborators \<Rightarrow> ('x list \<times> int list) list
     \<Rightarrow> ('p, 'g, 'o) model_state \<Rightarrow> nat list" where
  "batch_hits lib [] st = []"
| "batch_hits lib (b # bs) st =
     hits (forward lib (params st) (fst b)) (snd b) # batch_hits lib bs (batch_update lib b st)"

text \<open>Every batch pairs as many targets as it has feature vectors, and has at least one.\<close>

definition well_shaped :: "('x list \<times> 't list) list \<Rightarrow> bool" where
  "well_shaped bs \<longleftrightarrow> (\<forall>b \<in> set bs. length (fst b) = length (snd b) \<and> fst b \<noteq> [])"

text \<open>The samples a sequence of batches holds.\<close>

definition samples_seen :: "('x list \<times> 't list) list \<Rightarrow> nat" where
  "samples_seen bs = sum_list (map (\<lambda>b. length (snd b)) bs)"

text \<open>The model yields one non-empty row of scores per sample.\<close>

definition one_row_per_sample :: "('p, 'g, 'o, 'x, 't) collaborators \<Rightarrow> bool" where
  "one_row_per_sample lib \<longleftrightarrow>
     (\<forall>p b_x. length (forward lib p b_x) = length b_x \<and> [] \<notin> set (forward lib p b_x))"


section \<open>A small instance\<close>

text \<open>
  A concrete model, loss and optimizer on which the loops can be run by hand. The
  parameter is one integer \<open>p\<close>; every sample gets the scores \<open>[0, p]\<close>, so the predicted
  class is 1 when \<open>p\<close> is positive and 0 otherwise. The loss of a batch is the sum of its
  scores, its gradient is the number of its samples, and the optimizer adds twice the
  gradient buffer to the parameter and counts its steps.
\<close>

definition demo_lib :: "(int, int, nat, real, int) collaborators" where
  "demo_lib =
     \<lparr>forward = (\<lambda>p b_x. map (\<lambda>x. [0, real_of_int p]) b_x),
      loss_fn = (\<lambda>pred b_y. sum_list (map sum_list pred)),
      autograd = (\<lambda>p b_x b_y. int (length b_x)),
      opt_update = (\<lambda>s p g. (Suc s, p + 2 * g))\<rparr>"

definition demo_dataset :: "(real \<times> int) list" where
  "demo_dataset = [(5.1, 1), (4.9, 1)]"

definition demo_loader :: "(real, int) data_loader" where
  "demo_loader = \<lparr>dataset = demo_dataset, batch_size = 1, shuffle = False\<rparr>"

definition demo_order :: "nat list" where
  "demo_order = [0, 1]"

definition demo_state :: "(int, int, nat) model_state" where
  "demo_state = \<lparr>params = - 1, grad = 0, opt_state = 0\<rparr>"


text \<open>
  A second optimizer for the same model: it keeps the running sum of the gradients it has
  read (as Adam keeps running averages of them) and moves the parameter against that sum.
  The gradient of a batch is the sum of its targets, whatever the parameter is.
\<close>

definition momentum_lib :: "(int, int, int, real, int) collaborators" where
  "momentum_lib =
     \<lparr>forward = (\<lambda>p b_x. map (\<lambda>x. [0, real_of_int p]) b_x),
      loss_fn = (\<lambda>pred b_y. sum_list (map sum_list pred)),
      autograd = (\<lambda>p b_x b_y. sum_list b_y),
      opt_update = (\<lambda>v p g. (v + g, p - (v + g)))\<rparr>"

definition momentum_state :: "(int, int, int) model_state" where
  "momentum_state = \<lparr>params = 0, grad = 0, opt_state = 0\<rparr>"

section \<open>Properties of the label encoding\<close>

lemma encode_species_cases:
  "encode_species s = Inr 0 \<longleftrightarrow> s = ''setosa''"
  "encode_species s = Inr 1 \<longleftrightarrow> s = ''versicolor''"
  "encode_species s = Inr 2 \<longleftrightarrow> s = ''virginica''"
  by (simp_all add: encode_species_def)

lemma encode_species_range:
  "encode_species s = Inr c \<Longrightarrow> c \<in> {0, 1, 2}"
  by (auto simp: encode_species_def split: if_splits)

lemma encode_species_raises:
  "(\<exists>e. encode_species s = Inl e) \<longleftrightarrow> s \<notin> {''setosa'', ''versicolor'', ''virginica''}"
  by (simp add: encode_species_def)

lemma encode_all_range:
  "encode_all ss = Inr cs \<Longrightarrow> set cs \<subseteq> {0, 1, 2} \<and> length cs = length ss"
proof (induction ss arbitrary: cs)
  case Nil
  then show ?case by simp
next
  case (Cons s ss)
  from Cons.prems obtain c cs' where
    c: "encode_species s = Inr c" and cs': "encode_all ss = Inr cs'" and eq: "cs = c # cs'"
    by (auto split: sum.splits)
  from encode_species_range [OF c] Cons.IH [OF cs'] eq show ?case by auto
qed

lemma encode_all_raises_first:
  "\<forall>t \<in> set ok. t \<in> {''setosa'', ''versicolor'', ''virginica''} \<Longrightarrow>
   s \<notin> {''setosa'', ''versicolor'', ''virginica''} \<Longrightarrow>
   encode_all (ok @ s # rest) = Inl (not_recognized s)"
proof (induction ok)
  case Nil
  then show ?case by (auto simp: encode_species_def)
next
  case (Cons t ok)
  then have "\<exists>c. encode_species t = Inr c"
    by (auto simp: encode_species_def)
  with Cons show ?case by (auto simp: encode_species_def split: sum.splits)
qed

text \<open>
  Claim C8. \<open>encode_species\<close> returns 0 for \<open>setosa\<close>, 1 for \<open>versicolor\<close>, 2 for
  \<open>virginica\<close>, and raises a \<open>ValueError\<close> for every other string, so it raises if and
  only if the input is not one of the three species. Every label it returns lies in
  \<open>{0, 1, 2}\<close>; encoding a column returns only such labels, and the first unrecognised
  entry of a column ends the encoding with that entry's \<open>ValueError\<close>: nothing is
  recovered.
\<close>

theorem encode_species_spec:
  "encode_species ''setosa'' = Inr 0
   \<and> encode_species ''versicolor'' = Inr 1
   \<and> encode_species ''virginica'' = Inr 2
   \<and> (s \<notin> {''setosa'', ''versicolor'', ''virginica''} \<longrightarrow>
        encode_species s = Inl (not_recognized s))
   \<and> ((\<exists>e. encode_species s = Inl e) \<longleftrightarrow> s \<notin> {''setosa'', ''versicolor'', ''virginica''})
   \<and> (\<forall>c. encode_species s = Inr c \<longrightarrow> c \<in> {0, 1, 2})
   \<and> (\<forall>cs. encode_all ss = Inr cs \<longrightarrow> set cs \<subseteq> {0, 1, 2} \<and> length cs = length ss)
   \<and> ((\<forall>t \<in> set ok. t \<in> {''setosa'', ''versicolor'', ''virginica''})
        \<and> s \<notin> {''setosa'', ''versicolor'', ''virginica''}
        \<longrightarrow> encode_all (ok @ s # rest) = Inl (not_recognized s))"
  using encode_species_range [of s] encode_all_range [of ss]
    encode_all_raises_first [of ok s rest] encode_species_raises [of s]
  by (simp add: encode_species_def)

theorem encode_species_spec_witness:
  "encode_species ''setosa'' = Inr 0
   \<and> encode_species ''versicolor'' = Inr 1
   \<and> encode_species ''virginica'' = Inr 2
   \<and> ''tulip'' \<notin> {''setosa'', ''versicolor'', ''virginica''}
   \<and> encode_species ''tulip'' = Inl (ValueError (''Species '' @ [CHR 0x27] @ ''tulip'' @ [CHR 0x27] @ '' is not recognized.''))
   \<and> encode_all [''setosa'', ''virginica''] = Inr [0, 2]
   \<and> set [0, 2] \<subseteq> {0, 1, 2 :: int}
   \<and> encode_all ([''setosa''] @ ''tulip'' # [''virginica'']) = Inl (not_recognized ''tulip'')"
  using encode_species_spec [of "''tulip''" "[''setosa'', ''virginica'']" "[''setosa'']" "[''virginica'']"]
  by (simp add: encode_species_def not_recognized_def)

section \<open>Batches, and the state and the losses of the inner loops\<close>

declare batched.simps [simp del]

lemma batched_Nil: "batched n [] = []"
  by (simp add: batched.simps)

lemma batched_zero: "batched 0 xs = []"
  by (simp add: batched.simps)

lemma concat_batched: "0 < n \<Longrightarrow> concat (batched n xs) = xs"
proof (induction n xs rule: batched.induct)
  case (1 n xs)
  show ?case
  proof (cases "xs = []")
    case True
    then show ?thesis by (simp add: batched_Nil)
  next
    case False
    with "1.prems" have "batched n xs = take n xs # batched n (drop n xs)"
      by (subst batched.simps) simp
    moreover from "1.IH" False "1.prems" have "concat (batched n (drop n xs)) = drop n xs"
      by simp
    ultimately show ?thesis by simp
  qed
qed

lemma batched_single: "xs \<noteq> [] \<Longrightarrow> length xs \<le> n \<Longrightarrow> batched n xs = [xs]"
  by (subst batched.simps) (cases xs; auto simp: batched_Nil)

lemma batched_nonempty: "b \<in> set (batched n xs) \<Longrightarrow> b \<noteq> [] \<and> length b \<le> n"
proof (induction n xs rule: batched.induct)
  case (1 n xs)
  show ?case
  proof (cases "n = 0 \<or> xs = []")
    case True
    with "1.prems" show ?thesis by (auto simp: batched.simps [of n xs])
  next
    case False
    then have eq: "batched n xs = take n xs # batched n (drop n xs)"
      by (subst batched.simps) simp
    from "1.prems" eq have "b = take n xs \<or> b \<in> set (batched n (drop n xs))" by simp
    then show ?thesis
    proof
      assume "b = take n xs"
      with False show ?thesis by auto
    next
      assume "b \<in> set (batched n (drop n xs))"
      with "1.IH" False show ?thesis by blast
    qed
  qed
qed

lemma batch_update_fresh:
  "grad st = 0 \<Longrightarrow> batch_update lib b st = fresh_step lib b st"
  by (simp add: batch_update_def fresh_step_def loss_backward_def optimizer_step_def
      optimizer_zero_grad_def split: prod.splits)

lemma grad_batch_update [simp]: "grad (batch_update lib b st) = 0"
  by (simp add: batch_update_def optimizer_zero_grad_def)

lemma grad_fresh_step [simp]: "grad (fresh_step lib b st) = 0"
  by (simp add: fresh_step_def split: prod.splits)

lemma foldl_batch_update_fresh:
  "grad st = 0 \<Longrightarrow>
   foldl (\<lambda>s b. batch_update lib b s) st bs = foldl (\<lambda>s b. fresh_step lib b s) st bs"
proof (induction bs arbitrary: st)
  case Nil
  then show ?case by simp
next
  case (Cons b bs)
  then show ?case by (simp add: batch_update_fresh)
qed

lemma grad_foldl_batch_update:
  "grad st = 0 \<Longrightarrow> grad (foldl (\<lambda>s b. batch_update lib b s) st bs) = 0"
  by (induction bs arbitrary: st) simp_all

lemma train_batches_eq:
  "train_batches lib bs st losses
     = (foldl (\<lambda>s b. batch_update lib b s) st bs, losses @ batch_losses lib bs st)"
proof (induction bs arbitrary: st losses)
  case Nil
  then show ?case by simp
next
  case (Cons b bs)
  obtain b_x b_y where b: "b = (b_x, b_y)" by (cases b)
  show ?case
    unfolding b by (simp add: Cons.IH Let_def batch_update_def)
qed

lemma py_sum_eq: "py_sum xs = sum_list xs"
proof -
  have "foldl (+) a xs = a + sum_list xs" for a :: real
    by (induction xs arbitrary: a) (simp_all add: algebra_simps)
  from this [of 0] show ?thesis by (simp add: py_sum_def)
qed

lemma length_batch_losses [simp]: "length (batch_losses lib bs st) = length bs"
  by (induction bs arbitrary: st) simp_all

lemma batch_losses_Nil_iff [simp]: "batch_losses lib bs st = [] \<longleftrightarrow> bs = []"
  by (cases bs) simp_all

lemma train_epoch_eq:
  "train_epoch lib dl order st =
     (if iter_batches dl order = [] then Inl ZeroDivisionError
      else Inr (foldl (\<lambda>s b. batch_update lib b s) st (iter_batches dl order),
                sum_list (batch_losses lib (iter_batches dl order) st)
                  / real (length (iter_batches dl order))))"
  by (simp add: train_epoch_def train_batches_eq mean_of_def py_sum_eq)

section \<open>The loop over the epochs, line by line\<close>

lemma for_epochs_lines:
  assumes adv: "\<And>e s s' l. body e s = Inr (s', l) \<Longrightarrow> s' = adv e s"
    and run: "for_epochs body epochs st out = Inr (st', out')"
  shows "st' = foldl (\<lambda>s e. adv e s) st epochs
     \<and> length out' = length out + length epochs
     \<and> take (length out) out' = out
     \<and> (\<forall>k<length epochs.
          body (epochs ! k) (foldl (\<lambda>s e. adv e s) st (take k epochs))
            = Inr (foldl (\<lambda>s e. adv e s) st (take (Suc k) epochs), snd (out' ! (length out + k)))
          \<and> fst (out' ! (length out + k)) = epochs ! k)"
  using run
proof (induction epochs arbitrary: st out)
  case Nil
  then show ?case by simp
next
  case (Cons e es)
  from Cons.prems obtain s1 l where
    b: "body e st = Inr (s1, l)" and
    rest: "for_epochs body es s1 (out @ [(e, l)]) = Inr (st', out')"
    by (auto split: sum.splits)
  from adv [OF b] have s1: "s1 = adv e st" .
  note IH = Cons.IH [OF rest]
  from IH have len: "length out' = length out + length (e # es)" by simp
  from IH have tk: "take (length out + 1) out' = out @ [(e, l)]" by simp
  have "take (length out) out' = take (length out) (take (length out + 1) out')"
    by (simp add: min_def)
  also from tk have "\<dots> = out" by simp
  finally have tk0: "take (length out) out' = out" .
  have "out' ! length out = take (length out + 1) out' ! length out" by simp
  also from tk have "\<dots> = (e, l)" by simp
  finally have nth0: "out' ! length out = (e, l)" .
  have step: "body ((e # es) ! k) (foldl (\<lambda>s e. adv e s) st (take k (e # es)))
            = Inr (foldl (\<lambda>s e. adv e s) st (take (Suc k) (e # es)), snd (out' ! (length out + k)))
          \<and> fst (out' ! (length out + k)) = (e # es) ! k" if k: "k < length (e # es)" for k
  proof (cases k)
    case 0
    with b s1 nth0 show ?thesis by simp
  next
    case (Suc j)
    with k have j: "j < length es" by simp
    from IH j have "body (es ! j) (foldl (\<lambda>s e. adv e s) s1 (take j es))
            = Inr (foldl (\<lambda>s e. adv e s) s1 (take (Suc j) es), snd (out' ! (length (out @ [(e, l)]) + j)))
          \<and> fst (out' ! (length (out @ [(e, l)]) + j)) = es ! j"
      by blast
    with Suc s1 show ?thesis by simp
  qed
  from IH s1 have "st' = foldl (\<lambda>s e. adv e s) st (e # es)" by simp
  with len tk0 step show ?case by blast
qed

section \<open>Counting correct predictions\<close>

lemma argmax_nonempty: "scores \<noteq> [] \<Longrightarrow> \<exists>i. argmax scores = Inr i"
  by (cases scores) (simp_all add: argmax_def)

lemma argmax_dim1_rows:
  "[] \<notin> set pred \<Longrightarrow>
   \<exists>js. argmax_dim1 pred = Inr js
        \<and> list_all2 predicts pred js"
proof (induction pred)
  case Nil
  then show ?case by simp
next
  case (Cons row rows)
  then obtain js where js: "argmax_dim1 rows = Inr js"
    "list_all2 predicts rows js"
    by auto
  from Cons.prems have "row \<noteq> []" by auto
  from argmax_nonempty [OF this] obtain i where i: "argmax row = Inr i" ..
  then have "predicts row (int i)" by (simp add: predicts_def)
  with i js show ?case by simp
qed

lemma count_eq_hits:
  "list_all2 predicts pred js \<Longrightarrow>
   length b_y = length pred \<Longrightarrow>
   length (filter id (map (\<lambda>(x, y). x = y) (zip js b_y))) = hits pred b_y"
proof (induction pred js arbitrary: b_y rule: list_all2_induct)
  case Nil
  then show ?case by (simp add: hits_def)
next
  case (Cons row rows j js)
  from Cons.prems obtain y ys where b_y: "b_y = y # ys" and len: "length ys = length rows"
    by (cases b_y) auto
  from Cons.hyps(1) have "predicts row y \<longleftrightarrow> j = y"
    by (auto simp: predicts_def split: sum.splits)
  with Cons.IH [OF len] show ?case
    unfolding b_y by (simp add: hits_def)
qed

lemma n_correct_in_hits:
  assumes "length pred = length b_y" and "pred \<noteq> []" and "[] \<notin> set pred"
  shows "n_correct_in pred b_y = Inr (int (hits pred b_y))"
proof -
  from argmax_dim1_rows [OF assms(3)] obtain js where
    js: "argmax_dim1 pred = Inr js" and
    rel: "list_all2 predicts pred js"
    by blast
  from rel have len: "length js = length pred" by (simp add: list_all2_lengthD)
  with assms have te: "tensor_eq js b_y = Inr (map (\<lambda>(x, y). x = y) (zip js b_y))"
    by (simp add: sum_eq_item_def tensor_eq_def)
  from len assms have ne: "map (\<lambda>(x, y). x = y) (zip js b_y) \<noteq> []"
    by (cases js; cases b_y) auto
  from count_eq_hits [OF rel] assms(1) have
    "length (filter id (map (\<lambda>(x, y). x = y) (zip js b_y))) = hits pred b_y" by simp
  with js te ne show ?thesis
    by (simp add: n_correct_in_def sum_eq_item_def sum_item_def)
qed

lemma hits_le: "hits pred b_y \<le> length b_y"
proof -
  have "hits pred b_y \<le> length (zip pred b_y)"
    unfolding hits_def by (rule length_filter_le)
  then show ?thesis by simp
qed

text \<open>State and losses of the accuracy loop: no assumption on shapes.\<close>

lemma train_batches_acc_state:
  "train_batches_acc lib bs st losses n = Inr (st', losses', n') \<Longrightarrow>
   st' = foldl (\<lambda>s b. batch_update lib b s) st bs \<and> losses' = losses @ batch_losses lib bs st"
proof (induction bs arbitrary: st losses n)
  case Nil
  then show ?case by simp
next
  case (Cons b bs)
  obtain b_x b_y where b: "b = (b_x, b_y)" by (cases b)
  from Cons.prems obtain c where
    "train_batches_acc lib bs (batch_update lib b st)
       (losses @ [loss_fn lib (forward lib (params st) b_x) b_y]) (n + c) = Inr (st', losses', n')"
    unfolding b by (auto simp: Let_def batch_update_def split: sum.splits)
  from Cons.IH [OF this] show ?case unfolding b by simp
qed


lemma train_batches_acc_eq:
  "one_row_per_sample lib \<Longrightarrow> well_shaped bs \<Longrightarrow>
   train_batches_acc lib bs st losses n
     = Inr (foldl (\<lambda>s b. batch_update lib b s) st bs, losses @ batch_losses lib bs st,
            n + int (sum_list (batch_hits lib bs st)))"
proof (induction bs arbitrary: st losses n)
  case Nil
  then show ?case by simp
next
  case (Cons b bs)
  obtain b_x b_y where b: "b = (b_x, b_y)" by (cases b)
  from Cons.prems b have len: "length b_x = length b_y" "b_x \<noteq> []" and ws: "well_shaped bs"
    by (auto simp: well_shaped_def)
  from Cons.prems(1) have
    shape: "length (forward lib (params st) b_x) = length b_x"
      "[] \<notin> set (forward lib (params st) b_x)"
    by (simp_all add: one_row_per_sample_def)
  from shape(1) len(2) have "forward lib (params st) b_x \<noteq> []" by auto
  with shape len(1) n_correct_in_hits [of "forward lib (params st) b_x" b_y] have
    c: "n_correct_in (forward lib (params st) b_x) b_y
          = Inr (int (hits (forward lib (params st) b_x) b_y))" by simp
  show ?case
    unfolding b by (simp add: c Let_def Cons.IH [OF Cons.prems(1) ws] batch_update_def)
qed

lemma val_batches_state:
  "val_batches lib bs st losses n = Inr (st', losses', n') \<Longrightarrow> st' = st"
proof (induction bs arbitrary: losses n)
  case Nil
  then show ?case by simp
next
  case (Cons b bs)
  obtain b_x b_y where b: "b = (b_x, b_y)" by (cases b)
  from Cons.prems obtain l c where "val_batches lib bs st l c = Inr (st', losses', n')"
    unfolding b by (auto simp: Let_def split: sum.splits)
  from Cons.IH [OF this] show ?case .
qed

section \<open>Epochs\<close>

lemma well_shaped_iter_batches: "well_shaped (iter_batches dl order)"
  by (auto simp: well_shaped_def iter_batches_def collate_def dest: batched_nonempty)

lemma samples_seen_map_collate:
  "samples_seen (map collate xss) = length (concat xss)"
  by (induction xss) (simp_all add: samples_seen_def collate_def)

lemma samples_seen_iter_batches:
  "0 < batch_size dl \<Longrightarrow> samples_seen (iter_batches dl order) = length order"
  by (simp add: iter_batches_def samples_seen_map_collate concat_batched)

lemma sampler_order_length: "sampler_order dl order \<Longrightarrow> length order = length (dataset dl)"
proof -
  assume "sampler_order dl order"
  then have "mset order = mset [0..<length (dataset dl)]"
    by (auto simp: sampler_order_def split: if_splits)
  then have "size (mset order) = size (mset [0..<length (dataset dl)])" by simp
  then show ?thesis by simp
qed

lemma iter_batches_Nil_iff:
  "0 < batch_size dl \<Longrightarrow> iter_batches dl order = [] \<longleftrightarrow> order = []"
proof
  assume "0 < batch_size dl" "iter_batches dl order = []"
  with samples_seen_iter_batches [of dl order] show "order = []"
    by (simp add: samples_seen_def)
next
  assume "order = []"
  then show "iter_batches dl order = []" by (simp add: iter_batches_def batched_Nil)
qed

lemma sum_batch_hits_le: "sum_list (batch_hits lib bs st) \<le> samples_seen bs"
proof (induction bs arbitrary: st)
  case Nil
  then show ?case by (simp add: samples_seen_def)
next
  case (Cons b bs)
  from Cons.IH [of "batch_update lib b st"] hits_le [of "forward lib (params st) (fst b)" "snd b"]
  show ?case by (simp add: samples_seen_def)
qed

lemma batch_hits_nth:
  "k < length bs \<Longrightarrow>
   batch_hits lib bs st ! k
     = hits (forward lib (params (foldl (\<lambda>s b. batch_update lib b s) st (take k bs))) (fst (bs ! k)))
         (snd (bs ! k))"
proof (induction bs arbitrary: st k)
  case Nil
  then show ?case by simp
next
  case (Cons b bs)
  then show ?case by (cases k) simp_all
qed

lemma batch_losses_nth:
  "k < length bs \<Longrightarrow>
   batch_losses lib bs st ! k
     = loss_fn lib (forward lib (params (foldl (\<lambda>s b. batch_update lib b s) st (take k bs))) (fst (bs ! k)))
         (snd (bs ! k))"
proof (induction bs arbitrary: st k)
  case Nil
  then show ?case by simp
next
  case (Cons b bs)
  then show ?case by (cases k) simp_all
qed

lemma length_batch_hits [simp]: "length (batch_hits lib bs st) = length bs"
  by (induction bs arbitrary: st) simp_all

lemma train_epoch_acc_eq:
  assumes "one_row_per_sample lib"
  shows "train_epoch_acc lib dl order st =
     (if dataset dl = [] \<or> iter_batches dl order = [] then Inl ZeroDivisionError
      else Inr (epoch_update lib dl order st,
                sum_list (batch_losses lib (iter_batches dl order) st)
                  / real (length (iter_batches dl order)),
                real (sum_list (batch_hits lib (iter_batches dl order) st))
                  / real (length (dataset dl))))"
  by (simp add: train_epoch_acc_def train_batches_acc_eq [OF assms well_shaped_iter_batches]
      truediv_def mean_of_def py_sum_eq epoch_update_def)

lemma train_epoch_acc_state:
  "train_epoch_acc lib dl order st = Inr (st', line) \<Longrightarrow>
   st' = epoch_update lib dl order st"
  by (auto simp: train_epoch_acc_def epoch_update_def split: sum.splits prod.splits
      dest: train_batches_acc_state)

lemma train_epoch_acc_loss:
  "train_epoch_acc lib dl order st = Inr (st', avg_loss, accuracy) \<Longrightarrow>
   iter_batches dl order \<noteq> [] \<and>
   avg_loss = sum_list (batch_losses lib (iter_batches dl order) st)
                / real (length (iter_batches dl order))"
  by (auto simp: train_epoch_acc_def mean_of_def py_sum_eq split: sum.splits prod.splits if_splits
      dest: train_batches_acc_state)

lemma val_pass_state:
  "val_pass lib dl order st = Inr (st', line) \<Longrightarrow> st' = st"
  by (auto simp: val_pass_def split: sum.splits prod.splits dest: val_batches_state)

lemma train_val_epoch_state:
  "train_val_epoch lib train_dl val_dl train_order val_order st = Inr (st', line) \<Longrightarrow>
   st' = epoch_update lib train_dl train_order st"
  by (auto simp: train_val_epoch_def split: sum.splits prod.splits
      dest: val_pass_state train_epoch_acc_state)

lemma train_epoch_state:
  "train_epoch lib dl order st = Inr (st', line) \<Longrightarrow> st' = epoch_update lib dl order st"
  by (auto simp: train_epoch_eq epoch_update_def split: if_splits)

lemma foldl_epochs_all_batches:
  "foldl (\<lambda>s e. epoch_update lib dl (orders e) s) st epochs
     = foldl (\<lambda>s b. batch_update lib b s) st (all_batches dl orders epochs)"
  by (induction epochs arbitrary: st) (simp_all add: all_batches_def epoch_update_def)

section \<open>The small instance, evaluated\<close>

lemma demo_batches:
  "iter_batches demo_loader demo_order = [([5.1], [1]), ([4.9], [1])]"
  by (simp add: iter_batches_def demo_loader_def demo_dataset_def demo_order_def collate_def
      batched.simps)

lemma demo_epoch_acc: "train_epoch_acc demo_lib demo_loader demo_order demo_state
   = Inr (\<lparr>params = 3, grad = 0, opt_state = 2\<rparr>, 0, 1 / 2)"
  unfolding train_epoch_acc_def demo_batches
  by (simp add: demo_lib_def demo_state_def demo_loader_def demo_dataset_def
     n_correct_in_def argmax_def sum_eq_item_def tensor_eq_def sum_item_def truediv_def mean_of_def py_sum_def
     loss_backward_def optimizer_step_def optimizer_zero_grad_def Let_def)

lemma demo_final_accuracy:
  "model_accuracy demo_lib 3 (map fst demo_dataset) (map snd demo_dataset) = Inr 1"
  by (simp add: model_accuracy_def test_accuracy_def demo_lib_def demo_dataset_def
     argmax_def sum_eq_item_def tensor_eq_def sum_item_def truediv_def)

lemma demo_one_row: "one_row_per_sample demo_lib"
  by (auto simp: one_row_per_sample_def demo_lib_def)

lemma demo_sampler: "sampler_order demo_loader demo_order"
  by (simp add: sampler_order_def demo_loader_def demo_dataset_def demo_order_def upt_rec)

lemma demo_epoch: "train_epoch demo_lib demo_loader demo_order demo_state
   = Inr (\<lparr>params = 3, grad = 0, opt_state = 2\<rparr>, 0)"
  unfolding train_epoch_def demo_batches
  by (simp add: demo_lib_def demo_state_def mean_of_def py_sum_def
     loss_backward_def optimizer_step_def optimizer_zero_grad_def Let_def)

lemma demo_epoch2: "train_epoch demo_lib demo_loader demo_order \<lparr>params = 3, grad = 0, opt_state = 2\<rparr>
   = Inr (\<lparr>params = 7, grad = 0, opt_state = 4\<rparr>, 4)"
  unfolding train_epoch_def demo_batches
  by (simp add: demo_lib_def mean_of_def py_sum_def
     loss_backward_def optimizer_step_def optimizer_zero_grad_def Let_def)

lemma demo_epoch_acc2: "train_epoch_acc demo_lib demo_loader demo_order \<lparr>params = 3, grad = 0, opt_state = 2\<rparr>
   = Inr (\<lparr>params = 7, grad = 0, opt_state = 4\<rparr>, 4, 1)"
  unfolding train_epoch_acc_def demo_batches
  by (simp add: demo_lib_def demo_loader_def demo_dataset_def
     n_correct_in_def argmax_def sum_eq_item_def tensor_eq_def sum_item_def truediv_def mean_of_def py_sum_def
     loss_backward_def optimizer_step_def optimizer_zero_grad_def Let_def)

lemma demo_val_pass: "val_pass demo_lib demo_loader demo_order \<lparr>params = 3, grad = 0, opt_state = 2\<rparr>
   = Inr (\<lparr>params = 3, grad = 0, opt_state = 2\<rparr>, 3, 1)"
  unfolding val_pass_def demo_batches
  by (simp add: demo_lib_def demo_loader_def demo_dataset_def
     n_correct_in_def argmax_def sum_eq_item_def tensor_eq_def sum_item_def truediv_def mean_of_def py_sum_def Let_def)

lemma demo_val_pass2: "val_pass demo_lib demo_loader demo_order \<lparr>params = 7, grad = 0, opt_state = 4\<rparr>
   = Inr (\<lparr>params = 7, grad = 0, opt_state = 4\<rparr>, 7, 1)"
  unfolding val_pass_def demo_batches
  by (simp add: demo_lib_def demo_loader_def demo_dataset_def
     n_correct_in_def argmax_def sum_eq_item_def tensor_eq_def sum_item_def truediv_def mean_of_def py_sum_def Let_def)

lemma demo_train_loop:
  "train_loop demo_lib demo_loader (\<lambda>e. demo_order) [0, 1] demo_state []
     = Inr (\<lparr>params = 7, grad = 0, opt_state = 4\<rparr>, [(0, 0), (1, 4)])"
  by (simp add: train_loop_def demo_epoch demo_epoch2)

lemma demo_train_loop_acc:
  "train_loop_acc demo_lib demo_loader (\<lambda>e. demo_order) [0, 1] demo_state []
     = Inr (\<lparr>params = 7, grad = 0, opt_state = 4\<rparr>, [(0, 0, 1 / 2), (1, 4, 1)])"
  by (simp add: train_loop_acc_def demo_epoch_acc demo_epoch_acc2)

lemma demo_train_val_loop:
  "train_val_loop demo_lib demo_loader demo_loader (\<lambda>e. demo_order) (\<lambda>e. demo_order) [0, 1] demo_state []
     = Inr (\<lparr>params = 7, grad = 0, opt_state = 4\<rparr>, [(0, 0, 3, 1 / 2, 1), (1, 4, 7, 1, 1)])"
  by (simp add: train_val_loop_def train_val_epoch_def demo_epoch_acc demo_epoch_acc2
      demo_val_pass demo_val_pass2)

lemma demo_all_batches:
  "all_batches demo_loader (\<lambda>e. demo_order) [0, 1]
     = [([5.1], [1]), ([4.9], [1]), ([5.1], [1]), ([4.9], [1])]"
  by (simp add: all_batches_def demo_batches)

section \<open>The state the loops end in\<close>

lemma train_loop_final_state:
  "train_loop lib dl orders epochs st out = Inr (st', out') \<Longrightarrow>
   st' = foldl (\<lambda>s b. batch_update lib b s) st (all_batches dl orders epochs)"
  unfolding train_loop_def
  using for_epochs_lines [where body = "\<lambda>epoch st. train_epoch lib dl (orders epoch) st"
      and adv = "\<lambda>e s. epoch_update lib dl (orders e) s" and epochs = epochs and st = st
      and out = out and st' = st' and out' = out']
  by (simp add: train_epoch_state foldl_epochs_all_batches)

lemma train_loop_acc_final_state:
  "train_loop_acc lib dl orders epochs st out = Inr (st', out') \<Longrightarrow>
   st' = foldl (\<lambda>s b. batch_update lib b s) st (all_batches dl orders epochs)"
  unfolding train_loop_acc_def
  using for_epochs_lines [where body = "\<lambda>epoch st. train_epoch_acc lib dl (orders epoch) st"
      and adv = "\<lambda>e s. epoch_update lib dl (orders e) s" and epochs = epochs and st = st
      and out = out and st' = st' and out' = out']
  by (simp add: train_epoch_acc_state foldl_epochs_all_batches)

lemma train_val_loop_final_state:
  "train_val_loop lib dl vdl orders vorders epochs st out = Inr (st', out') \<Longrightarrow>
   st' = foldl (\<lambda>s b. batch_update lib b s) st (all_batches dl orders epochs)"
  unfolding train_val_loop_def
  using for_epochs_lines [where body = "\<lambda>epoch st. train_val_epoch lib dl vdl (orders epoch) (vorders epoch) st"
      and adv = "\<lambda>e s. epoch_update lib dl (orders e) s" and epochs = epochs and st = st
      and out = out and st' = st' and out' = out']
  by (simp add: train_val_epoch_state foldl_epochs_all_batches)

lemma buffer_read_by_step:
  assumes "grad st = 0" and "k < length bs"
  shows "grad (foldl (\<lambda>s b. batch_update lib b s) st (take k bs)) = 0
     \<and> grad (loss_backward lib (bs ! k) (foldl (\<lambda>s b. batch_update lib b s) st (take k bs)))
         = autograd lib (params (foldl (\<lambda>s b. batch_update lib b s) st (take k bs)))
             (fst (bs ! k)) (snd (bs ! k))"
  using grad_foldl_batch_update [OF assms(1), of lib "take k bs"]
  by (simp add: loss_backward_def)

text \<open>
  Claim C1, as amended. In every training loop the buffer of accumulated gradients is
  cleared after the optimizer step of each batch and before the backward pass of the next
  one, so no gradient computed for an earlier batch is in the buffer that the optimizer
  step of a later batch reads. Started with an empty buffer, as a freshly built model has
  it, each of the three loops ends in the state reached by taking, batch after batch, one
  optimizer step on the gradient of that batch alone (\<open>fresh_step\<close>), whenever the loop
  returns. Inside the inner loop, when the k-th batch is met the buffer is empty, after
  its backward pass the buffer holds exactly the gradient of the k-th batch at the
  current parameters, and the whole body is such a fresh step. The statement is about
  the buffer only: the optimizer's own state (\<open>opt_state\<close>) passes from one step to the
  next, and through it an earlier gradient can reach a later update, as shown after the
  theorem.
\<close>

theorem gradients_do_not_carry_over:
  assumes "grad st = 0"
  shows "(train_loop lib dl orders epochs st out = Inr (st', out') \<longrightarrow>
            st' = foldl (\<lambda>s b. fresh_step lib b s) st (all_batches dl orders epochs))
     \<and> (train_loop_acc clf cdl orders epochs st cout = Inr (st', cout') \<longrightarrow>
            st' = foldl (\<lambda>s b. fresh_step clf b s) st (all_batches cdl orders epochs))
     \<and> (train_val_loop clf cdl vdl orders vorders epochs st vout = Inr (st', vout') \<longrightarrow>
            st' = foldl (\<lambda>s b. fresh_step clf b s) st (all_batches cdl orders epochs))
     \<and> fst (train_batches lib bs st losses) = foldl (\<lambda>s b. batch_update lib b s) st bs
     \<and> (\<forall>k<length bs.
          grad (foldl (\<lambda>s b. batch_update lib b s) st (take k bs)) = 0
          \<and> grad (loss_backward lib (bs ! k) (foldl (\<lambda>s b. batch_update lib b s) st (take k bs)))
              = autograd lib (params (foldl (\<lambda>s b. batch_update lib b s) st (take k bs)))
                  (fst (bs ! k)) (snd (bs ! k))
          \<and> batch_update lib (bs ! k) (foldl (\<lambda>s b. batch_update lib b s) st (take k bs))
              = fresh_step lib (bs ! k) (foldl (\<lambda>s b. batch_update lib b s) st (take k bs)))"
proof -
  have g: "grad (foldl (\<lambda>s b. batch_update lib b s) st (take k bs)) = 0" for k
    by (rule grad_foldl_batch_update [OF assms])
  have c1: "train_loop lib dl orders epochs st out = Inr (st', out') \<longrightarrow>
            st' = foldl (\<lambda>s b. fresh_step lib b s) st (all_batches dl orders epochs)"
    using train_loop_final_state [of lib dl orders epochs st out st' out']
    by (simp add: foldl_batch_update_fresh [OF assms])
  have c2: "train_loop_acc clf cdl orders epochs st cout = Inr (st', cout') \<longrightarrow>
            st' = foldl (\<lambda>s b. fresh_step clf b s) st (all_batches cdl orders epochs)"
    using train_loop_acc_final_state [of clf cdl orders epochs st cout st' cout']
    by (simp add: foldl_batch_update_fresh [OF assms])
  have c3: "train_val_loop clf cdl vdl orders vorders epochs st vout = Inr (st', vout') \<longrightarrow>
            st' = foldl (\<lambda>s b. fresh_step clf b s) st (all_batches cdl orders epochs)"
    using train_val_loop_final_state [of clf cdl vdl orders vorders epochs st vout st' vout']
    by (simp add: foldl_batch_update_fresh [OF assms])
  have c4: "fst (train_batches lib bs st losses) = foldl (\<lambda>s b. batch_update lib b s) st bs"
    by (simp add: train_batches_eq)
  have c5: "grad (foldl (\<lambda>s b. batch_update lib b s) st (take k bs)) = 0
          \<and> grad (loss_backward lib (bs ! k) (foldl (\<lambda>s b. batch_update lib b s) st (take k bs)))
              = autograd lib (params (foldl (\<lambda>s b. batch_update lib b s) st (take k bs)))
                  (fst (bs ! k)) (snd (bs ! k))
          \<and> batch_update lib (bs ! k) (foldl (\<lambda>s b. batch_update lib b s) st (take k bs))
              = fresh_step lib (bs ! k) (foldl (\<lambda>s b. batch_update lib b s) st (take k bs))"
    if "k < length bs" for k
    using buffer_read_by_step [OF assms that, of lib] batch_update_fresh [OF g [of k], of lib "bs ! k"]
    by blast
  from c1 c2 c3 c4 c5 show ?thesis by blast
qed

theorem gradients_do_not_carry_over_witness:
  "grad demo_state = 0
   \<and> train_loop_acc demo_lib demo_loader (\<lambda>e. demo_order) [0, 1] demo_state []
       = Inr (\<lparr>params = 7, grad = 0, opt_state = 4\<rparr>, [(0, 0, 1 / 2), (1, 4, 1)])
   \<and> \<lparr>params = 7, grad = 0, opt_state = 4\<rparr>
       = foldl (\<lambda>s b. fresh_step demo_lib b s) demo_state
           [([5.1], [1]), ([4.9], [1]), ([5.1], [1]), ([4.9], [1])]
   \<and> grad (loss_backward demo_lib ([4.9], [1]) (batch_update demo_lib ([5.1], [1]) demo_state)) = 1"
proof -
  have g: "grad demo_state = 0" by (simp add: demo_state_def)
  from gradients_do_not_carry_over [OF g, of demo_lib demo_loader "\<lambda>e. demo_order" "[0, 1]" "[]"
      "\<lparr>params = 7, grad = 0, opt_state = 4\<rparr>" "[(0, 0), (1, 4)]"
      demo_lib demo_loader "[]" "[(0, 0, 1 / 2), (1, 4, 1)]"]
  have "train_loop_acc demo_lib demo_loader (\<lambda>e. demo_order) [0, 1] demo_state []
          = Inr (\<lparr>params = 7, grad = 0, opt_state = 4\<rparr>, [(0, 0, 1 / 2), (1, 4, 1)])
        \<longrightarrow> \<lparr>params = 7, grad = 0, opt_state = 4\<rparr>
          = foldl (\<lambda>s b. fresh_step demo_lib b s) demo_state
              (all_batches demo_loader (\<lambda>e. demo_order) [0, 1])"
    by blast
  with demo_train_loop_acc have "\<lparr>params = 7, grad = 0, opt_state = 4\<rparr>
          = foldl (\<lambda>s b. fresh_step demo_lib b s) demo_state
              (all_batches demo_loader (\<lambda>e. demo_order) [0, 1])"
    by blast
  then have "\<lparr>params = 7, grad = 0, opt_state = 4\<rparr>
       = foldl (\<lambda>s b. fresh_step demo_lib b s) demo_state
           [([5.1], [1]), ([4.9], [1]), ([5.1], [1]), ([4.9], [1])]"
    unfolding demo_all_batches .
  moreover have "grad (loss_backward demo_lib ([4.9], [1]) (batch_update demo_lib ([5.1], [1]) demo_state)) = 1"
    by (simp add: loss_backward_def batch_update_def optimizer_zero_grad_def optimizer_step_def
        demo_lib_def demo_state_def)
  ultimately show ?thesis using g demo_train_loop_acc by blast
qed


text \<open>
  The claim as stated, that no gradient of the earlier batch contributes to the parameter
  update of the later batch, fails for an optimizer with a memory, and the classification
  loops use Adam, which has one. Two runs of the inner loop of the loop with accuracy
  differ only in the targets of the first batch, hence in its gradient (1 or 5). In both
  runs the buffer is empty before the second batch and its optimizer step reads the same
  gradient 2, yet the second update of the parameter is \<open>- 3\<close> in one run and \<open>- 7\<close> in the
  other: the sum of both gradients, negated.
\<close>

theorem earlier_gradient_reaches_later_update:
  "grad momentum_state = 0
   \<and> train_batches_acc momentum_lib [([5.1], [1])] momentum_state [] 0
       = Inr (\<lparr>params = - 1, grad = 0, opt_state = 1\<rparr>, [0], 0)
   \<and> train_batches_acc momentum_lib [([5.1], [1]), ([4.9], [2])] momentum_state [] 0
       = Inr (\<lparr>params = - 4, grad = 0, opt_state = 3\<rparr>, [0, - 1], 0)
   \<and> train_batches_acc momentum_lib [([5.1], [5])] momentum_state [] 0
       = Inr (\<lparr>params = - 5, grad = 0, opt_state = 5\<rparr>, [0], 0)
   \<and> train_batches_acc momentum_lib [([5.1], [5]), ([4.9], [2])] momentum_state [] 0
       = Inr (\<lparr>params = - 12, grad = 0, opt_state = 7\<rparr>, [0, - 5], 0)
   \<and> grad (loss_backward momentum_lib ([4.9], [2]) \<lparr>params = - 1, grad = 0, opt_state = 1\<rparr>) = 2
   \<and> grad (loss_backward momentum_lib ([4.9], [2]) \<lparr>params = - 5, grad = 0, opt_state = 5\<rparr>) = 2
   \<and> params (optimizer_step momentum_lib
          (loss_backward momentum_lib ([4.9], [2]) \<lparr>params = - 1, grad = 0, opt_state = 1\<rparr>))
         - (- 1) = - 3
   \<and> params (optimizer_step momentum_lib
          (loss_backward momentum_lib ([4.9], [2]) \<lparr>params = - 5, grad = 0, opt_state = 5\<rparr>))
         - (- 5) = - 7"
  by (simp add: momentum_lib_def momentum_state_def n_correct_in_def argmax_def sum_eq_item_def
      tensor_eq_def sum_item_def loss_backward_def optimizer_step_def optimizer_zero_grad_def
      Let_def)

section \<open>Epoch metrics\<close>

lemma train_loop_returns:
  "\<forall>e \<in> set epochs. iter_batches dl (orders e) \<noteq> [] \<Longrightarrow>
   \<exists>st' out'. train_loop lib dl orders epochs st out = Inr (st', out')"
  unfolding train_loop_def
proof (induction epochs arbitrary: st out)
  case Nil
  then show ?case by simp
next
  case (Cons e es)
  then show ?case by (simp add: train_epoch_eq)
qed

lemma train_loop_acc_returns:
  assumes lib: "one_row_per_sample clf" and ne: "dataset dl \<noteq> []" and bs: "0 < batch_size dl"
  shows "\<forall>e \<in> set epochs. sampler_order dl (orders e) \<Longrightarrow>
    \<exists>st' out'. train_loop_acc clf dl orders epochs st out = Inr (st', out')"
  unfolding train_loop_acc_def
proof (induction epochs arbitrary: st out)
  case Nil
  then show ?case by simp
next
  case (Cons e es)
  from Cons.prems have "sampler_order dl (orders e)" by simp
  from sampler_order_length [OF this] ne have "orders e \<noteq> []" by auto
  with iter_batches_Nil_iff [OF bs, of "orders e"] have "iter_batches dl (orders e) \<noteq> []" by simp
  with ne Cons show ?case by (simp add: train_epoch_acc_eq [OF lib])
qed

lemma train_loop_lines:
  assumes "train_loop lib dl orders epochs st [] = Inr (st', out')"
  shows "length out' = length epochs
     \<and> (\<forall>k<length epochs.
          iter_batches dl (orders (epochs ! k)) \<noteq> []
          \<and> out' ! k =
              (epochs ! k,
               sum_list (batch_losses lib (iter_batches dl (orders (epochs ! k)))
                           (state_before lib dl orders epochs st k))
                 / real (length (iter_batches dl (orders (epochs ! k))))))"
proof -
  note L = for_epochs_lines [where body = "\<lambda>epoch st. train_epoch lib dl (orders epoch) st"
      and adv = "\<lambda>e s. epoch_update lib dl (orders e) s" and epochs = epochs and st = st
      and out = "[]" and st' = st' and out' = out', OF train_epoch_state
      assms [unfolded train_loop_def], simplified]
  from L have len: "length out' = length epochs" by simp
  have "iter_batches dl (orders (epochs ! k)) \<noteq> []
          \<and> out' ! k =
              (epochs ! k,
               sum_list (batch_losses lib (iter_batches dl (orders (epochs ! k)))
                           (state_before lib dl orders epochs st k))
                 / real (length (iter_batches dl (orders (epochs ! k)))))"
    if k: "k < length epochs" for k
  proof -
    from L k have
      e: "train_epoch lib dl (orders (epochs ! k)) (state_before lib dl orders epochs st k)
            = Inr (state_before lib dl orders epochs st (Suc k), snd (out' ! k))"
      and f: "fst (out' ! k) = epochs ! k"
      by (simp_all add: state_before_def)
    from e have "iter_batches dl (orders (epochs ! k)) \<noteq> []"
      and "snd (out' ! k) = sum_list (batch_losses lib (iter_batches dl (orders (epochs ! k)))
                           (state_before lib dl orders epochs st k))
                 / real (length (iter_batches dl (orders (epochs ! k))))"
      by (auto simp: train_epoch_eq split: if_splits)
    with f show ?thesis by (cases "out' ! k") simp
  qed
  with len show ?thesis by blast
qed

lemma train_loop_acc_lines:
  assumes "train_loop_acc lib dl orders epochs st [] = Inr (st', out')"
  shows "length out' = length epochs
     \<and> (\<forall>k<length epochs.
          fst (out' ! k) = epochs ! k
          \<and> train_epoch_acc lib dl (orders (epochs ! k)) (state_before lib dl orders epochs st k)
              = Inr (state_before lib dl orders epochs st (Suc k), snd (out' ! k)))"
  using for_epochs_lines [where body = "\<lambda>epoch st. train_epoch_acc lib dl (orders epoch) st"
      and adv = "\<lambda>e s. epoch_update lib dl (orders e) s" and epochs = epochs and st = st
      and out = "[]" and st' = st' and out' = out', OF train_epoch_acc_state
      assms [unfolded train_loop_acc_def], simplified]
  by (simp add: state_before_def)

lemma train_val_loop_lines:
  assumes "train_val_loop lib dl vdl orders vorders epochs st [] = Inr (st', out')"
  shows "length out' = length epochs
     \<and> (\<forall>k<length epochs.
          fst (out' ! k) = epochs ! k
          \<and> train_val_epoch lib dl vdl (orders (epochs ! k)) (vorders (epochs ! k))
                (state_before lib dl orders epochs st k)
              = Inr (state_before lib dl orders epochs st (Suc k), snd (out' ! k)))"
  using for_epochs_lines [where body = "\<lambda>epoch st. train_val_epoch lib dl vdl (orders epoch) (vorders epoch) st"
      and adv = "\<lambda>e s. epoch_update lib dl (orders e) s" and epochs = epochs and st = st
      and out = "[]" and st' = st' and out' = out', OF train_val_epoch_state
      assms [unfolded train_val_loop_def], simplified]
  by (simp add: state_before_def)

lemma demo_state_before_1:
  "state_before demo_lib demo_loader (\<lambda>e. demo_order) [0, 1] demo_state 1
     = \<lparr>params = 3, grad = 0, opt_state = 2\<rparr>"
  using train_epoch_state [OF demo_epoch]
  by (simp add: state_before_def)

text \<open>
  Claim C4. For every epoch the reported loss is the arithmetic mean of the per-batch
  losses of that epoch: the sum of the losses of the epoch's batches, each taken under
  the parameters held when the batch is met, divided by the number of batches. The
  accumulators start empty in every epoch: the k-th line depends on the earlier epochs
  only through the state they leave (\<open>state_before\<close>), never through their losses or
  counts. This holds for the loss-only loop and for the loop with accuracy, whenever
  they return. The loss-only loop returns whenever every epoch has at least one batch;
  the loop with accuracy returns on every non-empty dataset, when the model yields one
  non-empty row of scores per sample and the sampler draws every index once per epoch,
  and its inner loop then collects exactly the per-batch losses and the count of hits.
  The count of correct predictions starts at zero in every epoch as well: when the model
  yields one row of scores per sample, the accuracy of the k-th line counts the hits of
  the batches of that epoch only.
\<close>

theorem epoch_loss_is_mean_of_batch_losses:
  "(train_loop lib dl orders epochs st [] = Inr (st', out') \<longrightarrow>
      length out' = length epochs
      \<and> (\<forall>k<length epochs.
           iter_batches dl (orders (epochs ! k)) \<noteq> []
           \<and> out' ! k =
               (epochs ! k,
                sum_list (batch_losses lib (iter_batches dl (orders (epochs ! k)))
                            (state_before lib dl orders epochs st k))
                  / real (length (iter_batches dl (orders (epochs ! k)))))))
   \<and> (train_loop_acc clf cdl orders epochs cst [] = Inr (cst', cout') \<longrightarrow>
      length cout' = length epochs
      \<and> (\<forall>k<length epochs.
           iter_batches cdl (orders (epochs ! k)) \<noteq> []
           \<and> fst (cout' ! k) = epochs ! k
           \<and> fst (snd (cout' ! k)) =
                sum_list (batch_losses clf (iter_batches cdl (orders (epochs ! k)))
                            (state_before clf cdl orders epochs cst k))
                  / real (length (iter_batches cdl (orders (epochs ! k))))))
   \<and> (one_row_per_sample clf \<and> train_loop_acc clf cdl orders epochs cst [] = Inr (cst', cout') \<longrightarrow>
        (\<forall>k<length epochs.
           snd (snd (cout' ! k)) =
             real (sum_list (batch_hits clf (iter_batches cdl (orders (epochs ! k)))
                               (state_before clf cdl orders epochs cst k)))
               / real (length (dataset cdl))))
   \<and> (one_row_per_sample clf \<and> dataset cdl \<noteq> [] \<and> 0 < batch_size cdl
        \<and> (\<forall>e \<in> set epochs. sampler_order cdl (orders e)) \<longrightarrow>
        (\<exists>s ls. train_loop_acc clf cdl orders epochs cst [] = Inr (s, ls)))
   \<and> (one_row_per_sample clf \<and> well_shaped cbs \<longrightarrow>
        train_batches_acc clf cbs cst [] 0
          = Inr (foldl (\<lambda>s b. batch_update clf b s) cst cbs, batch_losses clf cbs cst,
                 int (sum_list (batch_hits clf cbs cst))))
   \<and> ((\<forall>e \<in> set epochs. iter_batches dl (orders e) \<noteq> []) \<longrightarrow>
        (\<exists>s ls. train_loop lib dl orders epochs st [] = Inr (s, ls)))
   \<and> snd (train_batches lib bs st []) = batch_losses lib bs st
   \<and> length (batch_losses lib bs st) = length bs
   \<and> (\<forall>k<length bs.
        batch_losses lib bs st ! k
          = loss_fn lib (forward lib (params (foldl (\<lambda>s b. batch_update lib b s) st (take k bs)))
                          (fst (bs ! k)))
              (snd (bs ! k)))"
proof (intro conjI)
  show "train_loop lib dl orders epochs st [] = Inr (st', out') \<longrightarrow>
      length out' = length epochs
      \<and> (\<forall>k<length epochs.
           iter_batches dl (orders (epochs ! k)) \<noteq> []
           \<and> out' ! k =
               (epochs ! k,
                sum_list (batch_losses lib (iter_batches dl (orders (epochs ! k)))
                            (state_before lib dl orders epochs st k))
                  / real (length (iter_batches dl (orders (epochs ! k))))))"
    by (rule impI) (rule train_loop_lines)
next
  show "(train_loop_acc clf cdl orders epochs cst [] = Inr (cst', cout') \<longrightarrow>
      length cout' = length epochs
      \<and> (\<forall>k<length epochs.
           iter_batches cdl (orders (epochs ! k)) \<noteq> []
           \<and> fst (cout' ! k) = epochs ! k
           \<and> fst (snd (cout' ! k)) =
                sum_list (batch_losses clf (iter_batches cdl (orders (epochs ! k)))
                            (state_before clf cdl orders epochs cst k))
                  / real (length (iter_batches cdl (orders (epochs ! k))))))"
  proof (rule impI, rule conjI [OF _ allI [OF impI]])
    assume run: "train_loop_acc clf cdl orders epochs cst [] = Inr (cst', cout')"
    note L = train_loop_acc_lines [OF run]
    from L show "length cout' = length epochs" by (rule conjunct1)
  next
    fix k
    assume run: "train_loop_acc clf cdl orders epochs cst [] = Inr (cst', cout')"
    note L = train_loop_acc_lines [OF run]
    assume k: "k < length epochs"
    from L have "\<forall>k<length epochs.
          fst (cout' ! k) = epochs ! k
          \<and> train_epoch_acc clf cdl (orders (epochs ! k)) (state_before clf cdl orders epochs cst k)
              = Inr (state_before clf cdl orders epochs cst (Suc k), snd (cout' ! k))"
      by (rule conjunct2)
    with k have f: "fst (cout' ! k) = epochs ! k"
      and e0: "train_epoch_acc clf cdl (orders (epochs ! k)) (state_before clf cdl orders epochs cst k)
              = Inr (state_before clf cdl orders epochs cst (Suc k), snd (cout' ! k))"
      by blast+
    have "snd (cout' ! k) = (fst (snd (cout' ! k)), snd (snd (cout' ! k)))" by simp
    with e0 have e: "train_epoch_acc clf cdl (orders (epochs ! k)) (state_before clf cdl orders epochs cst k)
              = Inr (state_before clf cdl orders epochs cst (Suc k),
                     fst (snd (cout' ! k)), snd (snd (cout' ! k)))"
      by simp
    from train_epoch_acc_loss [OF e] f
    show "iter_batches cdl (orders (epochs ! k)) \<noteq> []
           \<and> fst (cout' ! k) = epochs ! k
           \<and> fst (snd (cout' ! k)) =
                sum_list (batch_losses clf (iter_batches cdl (orders (epochs ! k)))
                            (state_before clf cdl orders epochs cst k))
                  / real (length (iter_batches cdl (orders (epochs ! k))))"
      by blast
  qed
next
  show "one_row_per_sample clf \<and> train_loop_acc clf cdl orders epochs cst [] = Inr (cst', cout') \<longrightarrow>
        (\<forall>k<length epochs.
           snd (snd (cout' ! k)) =
             real (sum_list (batch_hits clf (iter_batches cdl (orders (epochs ! k)))
                               (state_before clf cdl orders epochs cst k)))
               / real (length (dataset cdl)))"
  proof (intro impI allI)
    fix k
    assume h: "one_row_per_sample clf \<and> train_loop_acc clf cdl orders epochs cst [] = Inr (cst', cout')"
      and k: "k < length epochs"
    from h have lib: "one_row_per_sample clf"
      and run: "train_loop_acc clf cdl orders epochs cst [] = Inr (cst', cout')"
      by blast+
    from train_loop_acc_lines [OF run] have "\<forall>k<length epochs.
          fst (cout' ! k) = epochs ! k
          \<and> train_epoch_acc clf cdl (orders (epochs ! k)) (state_before clf cdl orders epochs cst k)
              = Inr (state_before clf cdl orders epochs cst (Suc k), snd (cout' ! k))"
      by (rule conjunct2)
    with k have e0: "train_epoch_acc clf cdl (orders (epochs ! k)) (state_before clf cdl orders epochs cst k)
              = Inr (state_before clf cdl orders epochs cst (Suc k), snd (cout' ! k))"
      by blast
    obtain l a where la: "snd (cout' ! k) = (l, a)" by (cases "snd (cout' ! k)")
    from e0 have "a = real (sum_list (batch_hits clf (iter_batches cdl (orders (epochs ! k)))
                               (state_before clf cdl orders epochs cst k)))
               / real (length (dataset cdl))"
      unfolding la by (auto simp: train_epoch_acc_eq [OF lib] split: if_splits)
    with la have "snd (snd (cout' ! k)) =
             real (sum_list (batch_hits clf (iter_batches cdl (orders (epochs ! k)))
                               (state_before clf cdl orders epochs cst k)))
               / real (length (dataset cdl))"
      by simp
    then show "snd (snd (cout' ! k)) =
             real (sum_list (batch_hits clf (iter_batches cdl (orders (epochs ! k)))
                               (state_before clf cdl orders epochs cst k)))
               / real (length (dataset cdl))" .
  qed
next
  show "one_row_per_sample clf \<and> dataset cdl \<noteq> [] \<and> 0 < batch_size cdl
        \<and> (\<forall>e \<in> set epochs. sampler_order cdl (orders e)) \<longrightarrow>
        (\<exists>s ls. train_loop_acc clf cdl orders epochs cst [] = Inr (s, ls))"
  proof
    assume h: "one_row_per_sample clf \<and> dataset cdl \<noteq> [] \<and> 0 < batch_size cdl
        \<and> (\<forall>e \<in> set epochs. sampler_order cdl (orders e))"
    then have 1: "one_row_per_sample clf" and 2: "dataset cdl \<noteq> []" and 3: "0 < batch_size cdl"
      and 4: "\<forall>e \<in> set epochs. sampler_order cdl (orders e)"
      by blast+
    from train_loop_acc_returns [OF 1 2 3 4]
    show "\<exists>s ls. train_loop_acc clf cdl orders epochs cst [] = Inr (s, ls)" .
  qed
next
  show "one_row_per_sample clf \<and> well_shaped cbs \<longrightarrow>
        train_batches_acc clf cbs cst [] 0
          = Inr (foldl (\<lambda>s b. batch_update clf b s) cst cbs, batch_losses clf cbs cst,
                 int (sum_list (batch_hits clf cbs cst)))"
  proof
    assume h: "one_row_per_sample clf \<and> well_shaped cbs"
    then have 1: "one_row_per_sample clf" and 2: "well_shaped cbs" by blast+
    from train_batches_acc_eq [OF 1 2, of cst "[]" 0]
    show "train_batches_acc clf cbs cst [] 0
          = Inr (foldl (\<lambda>s b. batch_update clf b s) cst cbs, batch_losses clf cbs cst,
                 int (sum_list (batch_hits clf cbs cst)))"
      by simp
  qed
next
  show "(\<forall>e \<in> set epochs. iter_batches dl (orders e) \<noteq> []) \<longrightarrow>
        (\<exists>s ls. train_loop lib dl orders epochs st [] = Inr (s, ls))"
    by (rule impI) (rule train_loop_returns)
next
  show "snd (train_batches lib bs st []) = batch_losses lib bs st"
    by (simp add: train_batches_eq)
next
  show "length (batch_losses lib bs st) = length bs"
    by simp
next
  show "\<forall>k<length bs.
        batch_losses lib bs st ! k
          = loss_fn lib (forward lib (params (foldl (\<lambda>s b. batch_update lib b s) st (take k bs)))
                          (fst (bs ! k)))
              (snd (bs ! k))"
    by (simp add: batch_losses_nth)
qed

theorem epoch_loss_is_mean_of_batch_losses_witness:
  "train_loop demo_lib demo_loader (\<lambda>e. demo_order) [0, 1] demo_state []
     = Inr (\<lparr>params = 7, grad = 0, opt_state = 4\<rparr>, [(0, 0), (1, 4)])
   \<and> batch_losses demo_lib (iter_batches demo_loader demo_order)
        (state_before demo_lib demo_loader (\<lambda>e. demo_order) [0, 1] demo_state 1) = [3, 5]
   \<and> [(0, 0), (1, 4 :: real)] ! 1 =
       (1 :: nat,
        sum_list (batch_losses demo_lib (iter_batches demo_loader demo_order)
                    (state_before demo_lib demo_loader (\<lambda>e. demo_order) [0, 1] demo_state 1))
          / real (length (iter_batches demo_loader demo_order)))
   \<and> one_row_per_sample demo_lib \<and> dataset demo_loader \<noteq> [] \<and> 0 < batch_size demo_loader
   \<and> sampler_order demo_loader demo_order
   \<and> (\<exists>s ls. train_loop_acc demo_lib demo_loader (\<lambda>e. demo_order) [0, 1] demo_state []
                 = Inr (s, ls))
   \<and> train_loop_acc demo_lib demo_loader (\<lambda>e. demo_order) [0, 1] demo_state []
       = Inr (\<lparr>params = 7, grad = 0, opt_state = 4\<rparr>, [(0, 0, 1 / 2), (1, 4, 1)])
   \<and> fst (snd ([(0 :: nat, 0 :: real, 1 / 2 :: real), (1, 4, 1)] ! 1)) =
        sum_list (batch_losses demo_lib (iter_batches demo_loader demo_order)
                    (state_before demo_lib demo_loader (\<lambda>e. demo_order) [0, 1] demo_state 1))
          / real (length (iter_batches demo_loader demo_order))
   \<and> snd (snd ([(0 :: nat, 0 :: real, 1 / 2 :: real), (1, 4, 1)] ! 1)) =
        real (sum_list (batch_hits demo_lib (iter_batches demo_loader demo_order)
                          (state_before demo_lib demo_loader (\<lambda>e. demo_order) [0, 1] demo_state 1)))
          / real (length (dataset demo_loader))
   \<and> well_shaped (iter_batches demo_loader demo_order)
   \<and> train_batches_acc demo_lib (iter_batches demo_loader demo_order) demo_state [] 0
       = Inr (\<lparr>params = 3, grad = 0, opt_state = 2\<rparr>, [- 1, 1], 1)"
proof -
  note Th = epoch_loss_is_mean_of_batch_losses [of demo_lib demo_loader "\<lambda>e. demo_order" "[0, 1]"
      demo_state "\<lparr>params = 7, grad = 0, opt_state = 4\<rparr>" "[(0, 0), (1, 4)]"
      demo_lib demo_loader demo_state "\<lparr>params = 7, grad = 0, opt_state = 4\<rparr>"
      "[(0, 0, 1 / 2), (1, 4, 1)]" "iter_batches demo_loader demo_order"]
  have klt: "1 < length [0, 1 :: nat]" by simp
  note T = Th [THEN conjunct1, THEN mp, OF demo_train_loop, THEN conjunct2, THEN spec, of 1, THEN mp,
      OF klt, THEN conjunct2]
  have "[(0, 0), (1, 4 :: real)] ! 1 =
       ([0, 1 :: nat] ! 1,
        sum_list (batch_losses demo_lib (iter_batches demo_loader demo_order)
                    (state_before demo_lib demo_loader (\<lambda>e. demo_order) [0, 1] demo_state 1))
          / real (length (iter_batches demo_loader demo_order)))"
    by (rule T)
  then have a: "[(0, 0), (1, 4 :: real)] ! 1 =
       (1 :: nat,
        sum_list (batch_losses demo_lib (iter_batches demo_loader demo_order)
                    (state_before demo_lib demo_loader (\<lambda>e. demo_order) [0, 1] demo_state 1))
          / real (length (iter_batches demo_loader demo_order)))"
    by simp
  have b: "batch_losses demo_lib (iter_batches demo_loader demo_order)
        (state_before demo_lib demo_loader (\<lambda>e. demo_order) [0, 1] demo_state 1) = [3, 5]"
    unfolding demo_state_before_1 demo_batches
    by (simp add: demo_lib_def batch_update_def loss_backward_def optimizer_step_def
        optimizer_zero_grad_def)
  have ne: "dataset demo_loader \<noteq> []" by (simp add: demo_loader_def demo_dataset_def)
  have bs: "0 < batch_size demo_loader" by (simp add: demo_loader_def)
  have ord: "\<forall>e \<in> set [0, 1 :: nat]. sampler_order demo_loader ((\<lambda>e. demo_order) e)"
    using demo_sampler by simp
  note R = Th [THEN conjunct2, THEN conjunct2, THEN conjunct2, THEN conjunct1, THEN mp,
      OF conjI [OF demo_one_row conjI [OF ne conjI [OF bs ord]]]]
  note L = Th [THEN conjunct2, THEN conjunct1, THEN mp, OF demo_train_loop_acc, THEN conjunct2,
      THEN spec, of 1, THEN mp, OF klt, THEN conjunct2, THEN conjunct2]
  note H = Th [THEN conjunct2, THEN conjunct2, THEN conjunct1, THEN mp,
      OF conjI [OF demo_one_row demo_train_loop_acc], THEN spec, of 1, THEN mp, OF klt]
  have ws: "well_shaped (iter_batches demo_loader demo_order)"
    by (rule well_shaped_iter_batches)
  note I = Th [THEN conjunct2, THEN conjunct2, THEN conjunct2, THEN conjunct2, THEN conjunct1,
      THEN mp, OF conjI [OF demo_one_row ws]]
  have v: "(foldl (\<lambda>s b. batch_update demo_lib b s) demo_state (iter_batches demo_loader demo_order),
            batch_losses demo_lib (iter_batches demo_loader demo_order) demo_state,
            int (sum_list (batch_hits demo_lib (iter_batches demo_loader demo_order) demo_state)))
       = (\<lparr>params = 3, grad = 0, opt_state = 2\<rparr>, [- 1, 1], 1)"
    unfolding demo_batches
    by (simp add: demo_lib_def demo_state_def hits_def predicts_def argmax_def
        batch_update_def loss_backward_def optimizer_step_def optimizer_zero_grad_def)
  have inner: "train_batches_acc demo_lib (iter_batches demo_loader demo_order) demo_state [] 0
       = Inr (\<lparr>params = 3, grad = 0, opt_state = 2\<rparr>, [- 1, 1], 1)"
    using I unfolding v .
  from demo_train_loop b a demo_one_row ne bs demo_sampler R demo_train_loop_acc L H ws inner
  show ?thesis by (intro conjI)
qed

section \<open>Training accuracy\<close>

lemma train_epoch_acc_accuracy:
  assumes lib: "one_row_per_sample clf" and bs: "0 < batch_size dl"
    and ord: "sampler_order dl order"
    and ep: "train_epoch_acc clf dl order s = Inr (s', l, a)"
  shows "a = real (sum_list (batch_hits clf (iter_batches dl order) s))
               / real (samples_seen (iter_batches dl order))
     \<and> samples_seen (iter_batches dl order) = length (dataset dl)
     \<and> 0 \<le> a \<and> a \<le> 1"
proof -
  from ep have ne: "dataset dl \<noteq> []"
    and a: "a = real (sum_list (batch_hits clf (iter_batches dl order) s)) / real (length (dataset dl))"
    by (auto simp: train_epoch_acc_eq [OF lib] split: if_splits)
  from samples_seen_iter_batches [OF bs] sampler_order_length [OF ord]
  have seen: "samples_seen (iter_batches dl order) = length (dataset dl)" by simp
  from sum_batch_hits_le [of clf "iter_batches dl order" s] seen
  have le: "sum_list (batch_hits clf (iter_batches dl order) s) \<le> length (dataset dl)" by simp
  from ne have pos: "0 < real (length (dataset dl))" by simp
  from le have "real (sum_list (batch_hits clf (iter_batches dl order) s)) \<le> real (length (dataset dl))"
    by simp
  with pos a have "a \<le> 1" by (simp add: divide_le_eq_1)
  moreover from a have "0 \<le> a" by simp
  ultimately show ?thesis using a seen by simp
qed

text \<open>
  Claim C2. For every epoch of the classification training loop, the reported training
  accuracy is the number of samples whose predicted class (the index of the maximum
  predicted score, \<open>predicts\<close>) equals the true class, counted batch by batch under the
  parameters held when the batch is met, divided by the number of samples seen in the
  epoch; that number is the size of the dataset, and the accuracy lies between 0 and 1.
  The model is assumed to yield one non-empty row of scores per sample, and the sampler
  to draw every index of the dataset once per epoch, as the library's samplers do. On a
  non-empty dataset the loop returns.
\<close>

theorem training_accuracy_is_correct_over_seen:
  assumes "one_row_per_sample clf" and "0 < batch_size dl"
    and "\<forall>e \<in> set epochs. sampler_order dl (orders e)"
  shows "(dataset dl \<noteq> [] \<longrightarrow> (\<exists>s ls. train_loop_acc clf dl orders epochs st [] = Inr (s, ls)))
     \<and> (train_loop_acc clf dl orders epochs st [] = Inr (st', out') \<longrightarrow>
          length out' = length epochs
          \<and> (\<forall>k<length epochs.
               snd (snd (out' ! k))
                 = real (sum_list (batch_hits clf (iter_batches dl (orders (epochs ! k)))
                                     (state_before clf dl orders epochs st k)))
                     / real (samples_seen (iter_batches dl (orders (epochs ! k))))
               \<and> samples_seen (iter_batches dl (orders (epochs ! k))) = length (dataset dl)
               \<and> 0 \<le> snd (snd (out' ! k)) \<and> snd (snd (out' ! k)) \<le> 1))"
proof (rule conjI [OF impI impI])
  assume "dataset dl \<noteq> []"
  from train_loop_acc_returns [OF assms(1) this assms(2) assms(3)]
  show "\<exists>s ls. train_loop_acc clf dl orders epochs st [] = Inr (s, ls)" .
next
  assume run: "train_loop_acc clf dl orders epochs st [] = Inr (st', out')"
  note L = train_loop_acc_lines [OF run]
  from L have len: "length out' = length epochs" by (rule conjunct1)
  from L have all: "\<forall>k<length epochs.
          fst (out' ! k) = epochs ! k
          \<and> train_epoch_acc clf dl (orders (epochs ! k)) (state_before clf dl orders epochs st k)
              = Inr (state_before clf dl orders epochs st (Suc k), snd (out' ! k))"
    by (rule conjunct2)
  have "snd (snd (out' ! k))
                 = real (sum_list (batch_hits clf (iter_batches dl (orders (epochs ! k)))
                                     (state_before clf dl orders epochs st k)))
                     / real (samples_seen (iter_batches dl (orders (epochs ! k))))
               \<and> samples_seen (iter_batches dl (orders (epochs ! k))) = length (dataset dl)
               \<and> 0 \<le> snd (snd (out' ! k)) \<and> snd (snd (out' ! k)) \<le> 1"
    if k: "k < length epochs" for k
  proof -
    from all k have e0: "train_epoch_acc clf dl (orders (epochs ! k)) (state_before clf dl orders epochs st k)
              = Inr (state_before clf dl orders epochs st (Suc k), snd (out' ! k))"
      by blast
    have "snd (out' ! k) = (fst (snd (out' ! k)), snd (snd (out' ! k)))" by simp
    with e0 have e: "train_epoch_acc clf dl (orders (epochs ! k)) (state_before clf dl orders epochs st k)
              = Inr (state_before clf dl orders epochs st (Suc k),
                     fst (snd (out' ! k)), snd (snd (out' ! k)))"
      by simp
    from k have "epochs ! k \<in> set epochs" by simp
    with assms(3) have "sampler_order dl (orders (epochs ! k))" by blast
    from train_epoch_acc_accuracy [OF assms(1) assms(2) this e] show ?thesis .
  qed
  with len show "length out' = length epochs
          \<and> (\<forall>k<length epochs.
               snd (snd (out' ! k))
                 = real (sum_list (batch_hits clf (iter_batches dl (orders (epochs ! k)))
                                     (state_before clf dl orders epochs st k)))
                     / real (samples_seen (iter_batches dl (orders (epochs ! k))))
               \<and> samples_seen (iter_batches dl (orders (epochs ! k))) = length (dataset dl)
               \<and> 0 \<le> snd (snd (out' ! k)) \<and> snd (snd (out' ! k)) \<le> 1)"
    by blast
qed

lemma demo_batch_hits:
  "batch_hits demo_lib (iter_batches demo_loader demo_order) demo_state = [0, 1]"
  unfolding demo_batches
  by (simp add: demo_lib_def demo_state_def hits_def predicts_def argmax_def
      batch_update_def loss_backward_def optimizer_step_def optimizer_zero_grad_def)

lemma demo_state_before_0:
  "state_before demo_lib demo_loader (\<lambda>e. demo_order) [0, 1] demo_state 0 = demo_state"
  by (simp add: state_before_def)

theorem training_accuracy_is_correct_over_seen_witness:
  "one_row_per_sample demo_lib \<and> 0 < batch_size demo_loader
   \<and> sampler_order demo_loader demo_order
   \<and> train_loop_acc demo_lib demo_loader (\<lambda>e. demo_order) [0, 1] demo_state []
       = Inr (\<lparr>params = 7, grad = 0, opt_state = 4\<rparr>, [(0, 0, 1 / 2), (1, 4, 1)])
   \<and> batch_hits demo_lib (iter_batches demo_loader demo_order) demo_state = [0, 1]
   \<and> samples_seen (iter_batches demo_loader demo_order) = 2
   \<and> snd (snd ([(0 :: nat, 0 :: real, 1 / 2 :: real), (1, 4, 1)] ! 0))
       = real (sum_list (batch_hits demo_lib (iter_batches demo_loader demo_order) demo_state))
           / real (samples_seen (iter_batches demo_loader demo_order))"
proof -
  have bs: "0 < batch_size demo_loader" by (simp add: demo_loader_def)
  have ord: "\<forall>e \<in> set [0, 1 :: nat]. sampler_order demo_loader ((\<lambda>e. demo_order) e)"
    using demo_sampler by simp
  note T = training_accuracy_is_correct_over_seen [OF demo_one_row bs ord, of demo_state
      "\<lparr>params = 7, grad = 0, opt_state = 4\<rparr>" "[(0, 0, 1 / 2), (1, 4, 1)]",
      THEN conjunct2, THEN mp, OF demo_train_loop_acc, THEN conjunct2, THEN spec, of 0, THEN mp]
  have klt: "0 < length [0, 1 :: nat]" by simp
  have "snd (snd ([(0 :: nat, 0 :: real, 1 / 2 :: real), (1, 4, 1)] ! 0))
       = real (sum_list (batch_hits demo_lib (iter_batches demo_loader demo_order)
            (state_before demo_lib demo_loader (\<lambda>e. demo_order) [0, 1] demo_state 0)))
           / real (samples_seen (iter_batches demo_loader demo_order))"
    by (rule T [OF klt, THEN conjunct1])
  then have a: "snd (snd ([(0 :: nat, 0 :: real, 1 / 2 :: real), (1, 4, 1)] ! 0))
       = real (sum_list (batch_hits demo_lib (iter_batches demo_loader demo_order) demo_state))
           / real (samples_seen (iter_batches demo_loader demo_order))"
    unfolding demo_state_before_0 .
  have seen: "samples_seen (iter_batches demo_loader demo_order) = 2"
    unfolding demo_batches by (simp add: samples_seen_def)
  from demo_one_row bs demo_sampler demo_train_loop_acc demo_batch_hits seen a
  show ?thesis by (intro conjI)
qed

section \<open>The validation pass\<close>

lemma val_batches_frame:
  "val_batches (clf\<lparr>autograd := a, opt_update := u\<rparr>) bs st losses n
     = val_batches clf bs st losses n"
proof (induction bs arbitrary: losses n)
  case Nil
  then show ?case by simp
next
  case (Cons b bs)
  obtain b_x b_y where b: "b = (b_x, b_y)" by (cases b)
  show ?case unfolding b by (simp add: Cons.IH Let_def split: sum.splits)
qed

lemma val_pass_frame:
  "val_pass (clf\<lparr>autograd := a, opt_update := u\<rparr>) dl order st = val_pass clf dl order st"
  by (simp add: val_pass_def val_batches_frame)

lemma sampler_order_sequential:
  "\<not> shuffle dl \<Longrightarrow> sampler_order dl order \<Longrightarrow> sampler_order dl order' \<Longrightarrow> order' = order"
  by (simp add: sampler_order_def)

text \<open>
  Claim C3. The validation pass computes its predictions, loss and accuracy without
  touching the model: when it returns, the parameters, the gradient buffer and the
  optimizer's state are what they were, so a second pass right after the first returns
  the same metrics (under the same index order, and the loader of the validation set,
  which does not shuffle, has only one). The pass computes no gradient and takes no
  optimizer step: its result does not depend on what automatic differentiation or the
  optimizer would do. In the loop with validation, the state an epoch leaves is the one
  its training pass leaves.
\<close>

theorem validation_pass_is_pure:
  "(val_pass clf dl order st = Inr (st', val_avg_loss, val_accuracy) \<longrightarrow>
      st' = st
      \<and> val_pass clf dl order st' = Inr (st', val_avg_loss, val_accuracy)
      \<and> (\<not> shuffle dl \<and> sampler_order dl order \<and> sampler_order dl order' \<longrightarrow>
           val_pass clf dl order' st' = Inr (st', val_avg_loss, val_accuracy)))
   \<and> val_pass (clf\<lparr>autograd := a, opt_update := u\<rparr>) dl order st = val_pass clf dl order st
   \<and> (train_val_epoch clf tdl dl torder order st = Inr (st'', line) \<longrightarrow>
        st'' = epoch_update clf tdl torder st)"
proof (intro conjI)
  show "val_pass clf dl order st = Inr (st', val_avg_loss, val_accuracy) \<longrightarrow>
      st' = st
      \<and> val_pass clf dl order st' = Inr (st', val_avg_loss, val_accuracy)
      \<and> (\<not> shuffle dl \<and> sampler_order dl order \<and> sampler_order dl order' \<longrightarrow>
           val_pass clf dl order' st' = Inr (st', val_avg_loss, val_accuracy))"
  proof
    assume v: "val_pass clf dl order st = Inr (st', val_avg_loss, val_accuracy)"
    from val_pass_state [OF v] have eq: "st' = st" .
    from v eq have again: "val_pass clf dl order st' = Inr (st', val_avg_loss, val_accuracy)"
      by simp
    have "val_pass clf dl order' st' = Inr (st', val_avg_loss, val_accuracy)"
      if "\<not> shuffle dl \<and> sampler_order dl order \<and> sampler_order dl order'"
    proof -
      from that sampler_order_sequential [of dl order order'] have "order' = order" by blast
      with again show ?thesis by simp
    qed
    with eq again show "st' = st
      \<and> val_pass clf dl order st' = Inr (st', val_avg_loss, val_accuracy)
      \<and> (\<not> shuffle dl \<and> sampler_order dl order \<and> sampler_order dl order' \<longrightarrow>
           val_pass clf dl order' st' = Inr (st', val_avg_loss, val_accuracy))"
      by blast
  qed
next
  show "val_pass (clf\<lparr>autograd := a, opt_update := u\<rparr>) dl order st = val_pass clf dl order st"
    by (rule val_pass_frame)
next
  show "train_val_epoch clf tdl dl torder order st = Inr (st'', line) \<longrightarrow>
        st'' = epoch_update clf tdl torder st"
    by (rule impI) (rule train_val_epoch_state)
qed

theorem validation_pass_is_pure_witness:
  "val_pass demo_lib demo_loader demo_order \<lparr>params = 3, grad = 0, opt_state = 2\<rparr>
     = Inr (\<lparr>params = 3, grad = 0, opt_state = 2\<rparr>, 3, 1)
   \<and> \<not> shuffle demo_loader \<and> sampler_order demo_loader demo_order
   \<and> val_pass demo_lib demo_loader demo_order \<lparr>params = 3, grad = 0, opt_state = 2\<rparr>
       = Inr (\<lparr>params = 3, grad = 0, opt_state = 2\<rparr>, 3, 1)"
proof -
  have ns: "\<not> shuffle demo_loader" by (simp add: demo_loader_def)
  note T = validation_pass_is_pure [of demo_lib demo_loader demo_order
      "\<lparr>params = 3, grad = 0, opt_state = 2\<rparr>" "\<lparr>params = 3, grad = 0, opt_state = 2\<rparr>" 3 1
      demo_order, THEN conjunct1, THEN mp, OF demo_val_pass, THEN conjunct2, THEN conjunct2,
      THEN mp, OF conjI [OF ns conjI [OF demo_sampler demo_sampler]]]
  from demo_val_pass ns demo_sampler T show ?thesis by (intro conjI)
qed

section \<open>Accuracy during training and accuracy after it\<close>

lemma batch_hits_map:
  "batch_hits lib bs st =
     map (\<lambda>k. hits (forward lib (params (foldl (\<lambda>s b. batch_update lib b s) st (take k bs)))
                      (fst (bs ! k)))
                (snd (bs ! k)))
       [0..<length bs]"
  by (rule nth_equalityI) (simp_all add: batch_hits_nth)

lemma demo_differs:
  "one_row_per_sample demo_lib \<and> sampler_order demo_loader demo_order
   \<and> train_epoch_acc demo_lib demo_loader demo_order demo_state
       = Inr (\<lparr>params = 3, grad = 0, opt_state = 2\<rparr>, 0, 1 / 2)
   \<and> model_accuracy demo_lib (params \<lparr>params = 3, grad = 0 :: int, opt_state = 2 :: nat\<rparr>)
        (map fst (dataset demo_loader)) (map snd (dataset demo_loader)) = Inr 1
   \<and> (1 / 2 :: real) \<noteq> 1"
proof -
  have "model_accuracy demo_lib (params \<lparr>params = 3, grad = 0 :: int, opt_state = 2 :: nat\<rparr>)
        (map fst (dataset demo_loader)) (map snd (dataset demo_loader)) = Inr 1"
    using demo_final_accuracy by (simp add: demo_loader_def)
  moreover have "(1 / 2 :: real) \<noteq> 1" by simp
  ultimately show ?thesis using demo_one_row demo_sampler demo_epoch_acc by (intro conjI)
qed

text \<open>
  Claim C10. In the classification training loop the hard predictions of a batch are
  computed before that batch's optimizer step: the reported accuracy of an epoch is the
  sum, over the batches, of the hits under the parameters reached after the steps of the
  earlier batches only, divided by the size of the dataset. So the reported accuracy
  need not be the accuracy of the parameters the epoch ends with: there is a model, a
  dataset and a starting state where the two differ.
\<close>

theorem accuracy_uses_parameters_before_each_step:
  "(one_row_per_sample clf \<and> train_epoch_acc clf dl order st = Inr (st', avg_loss, accuracy) \<longrightarrow>
      accuracy =
        real (sum_list
               (map (\<lambda>k. hits (forward clf
                                 (params (foldl (\<lambda>s b. batch_update clf b s) st
                                            (take k (iter_batches dl order))))
                                 (fst (iter_batches dl order ! k)))
                          (snd (iter_batches dl order ! k)))
                  [0..<length (iter_batches dl order)]))
          / real (length (dataset dl))
      \<and> st' = foldl (\<lambda>s b. batch_update clf b s) st (iter_batches dl order))
   \<and> (\<exists>(lib :: (int, int, nat, real, int) collaborators) ldl lorder lst lst' l a a'.
         one_row_per_sample lib \<and> sampler_order ldl lorder
         \<and> train_epoch_acc lib ldl lorder lst = Inr (lst', l, a)
         \<and> model_accuracy lib (params lst') (map fst (dataset ldl)) (map snd (dataset ldl)) = Inr a'
         \<and> a \<noteq> a')"
proof (rule conjI)
  show "one_row_per_sample clf \<and> train_epoch_acc clf dl order st = Inr (st', avg_loss, accuracy) \<longrightarrow>
      accuracy =
        real (sum_list
               (map (\<lambda>k. hits (forward clf
                                 (params (foldl (\<lambda>s b. batch_update clf b s) st
                                            (take k (iter_batches dl order))))
                                 (fst (iter_batches dl order ! k)))
                          (snd (iter_batches dl order ! k)))
                  [0..<length (iter_batches dl order)]))
          / real (length (dataset dl))
      \<and> st' = foldl (\<lambda>s b. batch_update clf b s) st (iter_batches dl order)"
  proof
    assume h: "one_row_per_sample clf \<and> train_epoch_acc clf dl order st = Inr (st', avg_loss, accuracy)"
    then have lib: "one_row_per_sample clf"
      and ep: "train_epoch_acc clf dl order st = Inr (st', avg_loss, accuracy)"
      by blast+
    from ep have a: "accuracy = real (sum_list (batch_hits clf (iter_batches dl order) st))
                         / real (length (dataset dl))"
      by (auto simp: train_epoch_acc_eq [OF lib] split: if_splits)
    from train_epoch_acc_state [OF ep] have s: "st' = foldl (\<lambda>s b. batch_update clf b s) st (iter_batches dl order)"
      by (simp add: epoch_update_def)
    from a s show "accuracy =
        real (sum_list
               (map (\<lambda>k. hits (forward clf
                                 (params (foldl (\<lambda>s b. batch_update clf b s) st
                                            (take k (iter_batches dl order))))
                                 (fst (iter_batches dl order ! k)))
                          (snd (iter_batches dl order ! k)))
                  [0..<length (iter_batches dl order)]))
          / real (length (dataset dl))
      \<and> st' = foldl (\<lambda>s b. batch_update clf b s) st (iter_batches dl order)"
      unfolding batch_hits_map [symmetric] by (rule conjI)
  qed
next
  from demo_differs
  show "\<exists>(lib :: (int, int, nat, real, int) collaborators) ldl lorder lst lst' l a a'.
         one_row_per_sample lib \<and> sampler_order ldl lorder
         \<and> train_epoch_acc lib ldl lorder lst = Inr (lst', l, a)
         \<and> model_accuracy lib (params lst') (map fst (dataset ldl)) (map snd (dataset ldl)) = Inr a'
         \<and> a \<noteq> a'"
    by (intro exI)
qed

theorem accuracy_uses_parameters_before_each_step_witness:
  "one_row_per_sample demo_lib
   \<and> train_epoch_acc demo_lib demo_loader demo_order demo_state
       = Inr (\<lparr>params = 3, grad = 0, opt_state = 2\<rparr>, 0, 1 / 2)
   \<and> (1 / 2 :: real) =
        real (sum_list
               (map (\<lambda>k. hits (forward demo_lib
                                 (params (foldl (\<lambda>s b. batch_update demo_lib b s) demo_state
                                            (take k (iter_batches demo_loader demo_order))))
                                 (fst (iter_batches demo_loader demo_order ! k)))
                          (snd (iter_batches demo_loader demo_order ! k)))
                  [0..<length (iter_batches demo_loader demo_order)]))
          / real (length (dataset demo_loader))
   \<and> model_accuracy demo_lib 3 (map fst demo_dataset) (map snd demo_dataset) = Inr 1"
proof -
  note T = accuracy_uses_parameters_before_each_step [of demo_lib demo_loader demo_order demo_state
      "\<lparr>params = 3, grad = 0, opt_state = 2\<rparr>" 0 "1 / 2", THEN conjunct1, THEN mp,
      OF conjI [OF demo_one_row demo_epoch_acc], THEN conjunct1]
  from demo_one_row demo_epoch_acc T demo_final_accuracy show ?thesis by (intro conjI)
qed

section \<open>Maximum selection\<close>








section \<open>One batch for the whole dataset\<close>

lemma mset_map_nth_order:
  assumes "mset order = mset [0..<length ds]"
  shows "mset (map (\<lambda>i. ds ! i) order) = mset ds"
proof -
  have "mset (map (\<lambda>i. ds ! i) order) = image_mset (\<lambda>i. ds ! i) (mset order)" by simp
  also from assms have "\<dots> = image_mset (\<lambda>i. ds ! i) (mset [0..<length ds])" by simp
  also have "\<dots> = mset (map (\<lambda>i. ds ! i) [0..<length ds])" by simp
  also have "map (\<lambda>i. ds ! i) [0..<length ds] = ds" by (rule map_nth)
  finally show ?thesis .
qed

lemma sampler_order_mset:
  "sampler_order dl order \<Longrightarrow> mset order = mset [0..<length (dataset dl)]"
  by (auto simp: sampler_order_def split: if_splits)

lemma iter_batches_full:
  assumes ne: "dataset dl \<noteq> []" and bs: "length (dataset dl) \<le> batch_size dl"
    and ord: "sampler_order dl order"
  shows "iter_batches dl order = [collate (map (\<lambda>i. dataset dl ! i) order)]"
proof -
  from sampler_order_length [OF ord] have len: "length order = length (dataset dl)" .
  with ne have "map (\<lambda>i. dataset dl ! i) order \<noteq> []" by auto
  moreover from len bs have "length (map (\<lambda>i. dataset dl ! i) order) \<le> batch_size dl" by simp
  ultimately have "batched (batch_size dl) (map (\<lambda>i. dataset dl ! i) order)
      = [map (\<lambda>i. dataset dl ! i) order]"
    by (rule batched_single)
  then show ?thesis by (simp add: iter_batches_def)
qed

text \<open>
  Claim C6, as amended. For every non-empty dataset and every batch size greater than or
  equal to the size of the dataset, the loader is built, and in every epoch it yields
  exactly one batch, which holds the entire dataset: the samples in the order the sampler
  drew, which is the dataset itself when the loader does not shuffle, and the same
  samples, each once, when it does. The training epoch is then one pass of the loop body
  over that batch. An empty dataset yields no batch at all, as shown after the theorem.
\<close>

theorem one_full_batch_per_epoch:
  assumes "ds \<noteq> []" and "int (length ds) \<le> bs"
  shows "DataLoader ds bs sh = Inr \<lparr>dataset = ds, batch_size = nat bs, shuffle = sh\<rparr>
     \<and> (sampler_order \<lparr>dataset = ds, batch_size = nat bs, shuffle = sh\<rparr> order \<longrightarrow>
          iter_batches \<lparr>dataset = ds, batch_size = nat bs, shuffle = sh\<rparr> order
            = [collate (map (\<lambda>i. ds ! i) order)]
          \<and> mset (map (\<lambda>i. ds ! i) order) = mset ds
          \<and> (\<not> sh \<longrightarrow> iter_batches \<lparr>dataset = ds, batch_size = nat bs, shuffle = sh\<rparr> order
                          = [collate ds])
          \<and> epoch_update lib \<lparr>dataset = ds, batch_size = nat bs, shuffle = sh\<rparr> order st
              = batch_update lib (collate (map (\<lambda>i. ds ! i) order)) st)"
proof (rule conjI [OF _ impI])
  from assms have "0 < bs" by (cases ds) auto
  then show "DataLoader ds bs sh = Inr \<lparr>dataset = ds, batch_size = nat bs, shuffle = sh\<rparr>"
    by (simp add: DataLoader_def)
next
  let ?dl = "\<lparr>dataset = ds, batch_size = nat bs, shuffle = sh\<rparr>"
  assume ord: "sampler_order ?dl order"
  from assms have ne: "dataset ?dl \<noteq> []" and bs: "length (dataset ?dl) \<le> batch_size ?dl"
    by simp_all
  from iter_batches_full [OF ne bs ord]
  have one: "iter_batches ?dl order = [collate (map (\<lambda>i. ds ! i) order)]" by simp
  from sampler_order_mset [OF ord] have "mset order = mset [0..<length ds]" by simp
  from mset_map_nth_order [OF this] have all: "mset (map (\<lambda>i. ds ! i) order) = mset ds" .
  have seq: "iter_batches ?dl order = [collate ds]" if "\<not> sh"
  proof -
    from that ord have "order = [0..<length ds]" by (simp add: sampler_order_def)
    then have "map (\<lambda>i. ds ! i) order = ds" by (simp add: map_nth)
    with one show ?thesis by simp
  qed
  from one have ep: "epoch_update lib ?dl order st
      = batch_update lib (collate (map (\<lambda>i. ds ! i) order)) st"
    by (simp add: epoch_update_def)
  from one all seq ep
  show "iter_batches ?dl order = [collate (map (\<lambda>i. ds ! i) order)]
          \<and> mset (map (\<lambda>i. ds ! i) order) = mset ds
          \<and> (\<not> sh \<longrightarrow> iter_batches ?dl order = [collate ds])
          \<and> epoch_update lib ?dl order st
              = batch_update lib (collate (map (\<lambda>i. ds ! i) order)) st"
    by blast
qed

theorem one_full_batch_per_epoch_witness:
  "demo_dataset \<noteq> [] \<and> int (length demo_dataset) \<le> 2
   \<and> DataLoader demo_dataset 2 False
       = Inr \<lparr>dataset = demo_dataset, batch_size = nat 2, shuffle = False\<rparr>
   \<and> sampler_order \<lparr>dataset = demo_dataset, batch_size = nat 2, shuffle = False\<rparr> demo_order
   \<and> iter_batches \<lparr>dataset = demo_dataset, batch_size = nat 2, shuffle = False\<rparr> demo_order
       = [collate demo_dataset]"
proof -
  have ne: "demo_dataset \<noteq> []" by (simp add: demo_dataset_def)
  have le: "int (length demo_dataset) \<le> 2" by (simp add: demo_dataset_def)
  have ord: "sampler_order \<lparr>dataset = demo_dataset, batch_size = nat 2, shuffle = False\<rparr> demo_order"
    by (simp add: sampler_order_def demo_dataset_def demo_order_def upt_rec)
  have ns: "\<not> False" by simp
  note T = one_full_batch_per_epoch [OF ne le, of False demo_order]
  note T1 = T [THEN conjunct1]
  note T2 = T [THEN conjunct2, THEN mp, OF ord, THEN conjunct2, THEN conjunct2, THEN conjunct1,
      THEN mp, OF ns]
  from ne le T1 ord T2 show ?thesis by (intro conjI)
qed

text \<open>
  The claim as stated, for every dataset, fails on the empty dataset. With the batch size
  105 of the notebook's validation loader, which is at least the size of the dataset, the
  loader is built, its sampler draws the empty order, and an epoch has no batch instead
  of one; the training epoch and the validation pass then raise when they divide. With
  the batch size \<open>len(x)\<close> of the regression notebook, which is 0 here, the loader is not
  even built.
\<close>

theorem empty_dataset_yields_no_batch:
  "DataLoader ([] :: (real \<times> int) list) 105 False
     = Inr \<lparr>dataset = [], batch_size = 105, shuffle = False\<rparr>
   \<and> int (length ([] :: (real \<times> int) list)) \<le> 105
   \<and> sampler_order \<lparr>dataset = ([] :: (real \<times> int) list), batch_size = 105, shuffle = False\<rparr> []
   \<and> iter_batches \<lparr>dataset = ([] :: (real \<times> int) list), batch_size = 105, shuffle = False\<rparr> [] = []
   \<and> length (iter_batches \<lparr>dataset = ([] :: (real \<times> int) list), batch_size = 105, shuffle = False\<rparr> []) \<noteq> 1
   \<and> train_epoch demo_lib \<lparr>dataset = [], batch_size = 105, shuffle = False\<rparr> [] demo_state
       = Inl ZeroDivisionError
   \<and> val_pass demo_lib \<lparr>dataset = [], batch_size = 105, shuffle = False\<rparr> [] demo_state
       = Inl ZeroDivisionError
   \<and> DataLoader ([] :: (real \<times> int) list) (int (length ([] :: (real \<times> int) list))) False
       = Inl (ValueError ''batch_size should be a positive integer value'')"
  by (simp add: DataLoader_def sampler_order_def iter_batches_def batched_Nil train_epoch_def
      val_pass_def truediv_def mean_of_def)

section \<open>Splits are partitions\<close>

lemma concat_split_at:
  "sum_list ns = length xs \<Longrightarrow> concat (split_at ns xs) = xs"
proof (induction ns arbitrary: xs)
  case Nil
  then show ?case by simp
next
  case (Cons n ns)
  from Cons.prems have "sum_list ns = length (drop n xs)" by simp
  from Cons.IH [OF this] show ?case by simp
qed

lemma map_length_split_at:
  "sum_list ns \<le> length xs \<Longrightarrow> map length (split_at ns xs) = ns"
proof (induction ns arbitrary: xs)
  case Nil
  then show ?case by simp
next
  case (Cons n ns)
  from Cons.prems have "sum_list ns \<le> length (drop n xs)" by simp
  from Cons.IH [OF this] Cons.prems show ?case by simp
qed

lemma length_split_at [simp]: "length (split_at ns xs) = length ns"
  by (induction ns arbitrary: xs) simp_all

lemma distinct_concat_disjoint:
  "distinct (concat xss) \<Longrightarrow> i < j \<Longrightarrow> j < length xss \<Longrightarrow> set (xss ! i) \<inter> set (xss ! j) = {}"
proof (induction xss arbitrary: i j)
  case Nil
  then show ?case by simp
next
  case (Cons xs xss)
  from Cons.prems(2) obtain j' where j: "j = Suc j'" by (cases j) auto
  show ?case
  proof (cases i)
    case 0
    from Cons.prems(3) j have "xss ! j' \<in> set xss" by simp
    with Cons.prems(1) have "set xs \<inter> set (xss ! j') = {}" by auto
    with 0 j show ?thesis by simp
  next
    case (Suc i')
    with Cons.prems j Cons.IH [of i' j'] show ?thesis by simp
  qed
qed

lemma distinct_concat_parts:
  "distinct (concat xss) \<Longrightarrow> xs \<in> set xss \<Longrightarrow> distinct xs"
  by (induction xss) auto

lemma perm_distinct:
  assumes "mset perm = mset [0..<n]"
  shows "distinct perm" and "set perm = {0..<n}" and "length perm = n"
proof -
  from assms have "distinct perm \<longleftrightarrow> distinct [0..<n]" by (rule mset_eq_imp_distinct_iff)
  then show "distinct perm" by simp
  from assms have "set_mset (mset perm) = set_mset (mset [0..<n])" by simp
  then show "set perm = {0..<n}" by simp
  from assms have "size (mset perm) = size (mset [0..<n])" by simp
  then show "length perm = n" by simp
qed

lemma subset_concat: "concat (map (subset ds) parts) = subset ds (concat parts)"
  by (induction parts) (simp_all add: subset_def)

lemma zip_subset:
  "length x = length y \<Longrightarrow> \<forall>i \<in> set idx. i < length x \<Longrightarrow>
   zip (subset x idx) (subset y idx) = subset (zip x y) idx"
  by (induction idx) (simp_all add: subset_def)

text \<open>
  Claim C7. Splitting a dataset of size N into subsets whose sizes sum to N yields
  subsets of the requested sizes whose index lists are pairwise disjoint, each without
  repetition, and whose union is the index set of the dataset; the samples of the
  subsets, taken together, are the samples of the dataset, each exactly once, and a
  sample of a subset is the (features, target) pair the dataset holds at its index. The
  same holds for the two-way split of separate feature and target columns: the pairs of
  the training part and of the test part together are the pairs of the columns, each
  exactly once. The permutation the library draws may be any permutation of the indices.
\<close>

theorem split_is_a_partition:
  assumes "mset perm = mset [0..<length ds]"
  shows "(sum_list lengths = length ds \<longrightarrow>
           random_split ds lengths perm = Inr (split_at lengths perm)
           \<and> map length (split_at lengths perm) = lengths
           \<and> (\<forall>i<length lengths. \<forall>j<length lengths. i \<noteq> j \<longrightarrow>
                 set (split_at lengths perm ! i) \<inter> set (split_at lengths perm ! j) = {})
           \<and> (\<forall>i<length lengths. distinct (split_at lengths perm ! i))
           \<and> set (concat (split_at lengths perm)) = {0..<length ds}
           \<and> mset (concat (map (subset ds) (split_at lengths perm))) = mset ds
           \<and> (\<forall>i<length lengths. \<forall>k<length (split_at lengths perm ! i).
                 subset ds (split_at lengths perm ! i) ! k = ds ! (split_at lengths perm ! i ! k)))
     \<and> (length x = length ds \<and> length y = length ds \<and> n_test < length ds \<longrightarrow>
           (\<exists>x_train x_test y_train y_test.
              train_test_split x y n_test perm = Inr (x_train, x_test, y_train, y_test)
              \<and> length x_test = n_test \<and> length y_test = n_test
              \<and> length x_train = length ds - n_test \<and> length y_train = length ds - n_test
              \<and> mset (zip x_train y_train @ zip x_test y_test) = mset (zip x y)))"
proof (rule conjI [OF impI impI])
  assume sum: "sum_list lengths = length ds"
  note P = perm_distinct [OF assms]
  from sum P(3) have sum': "sum_list lengths = length perm" by simp
  from concat_split_at [OF sum'] have cc: "concat (split_at lengths perm) = perm" .
  from sum have 1: "random_split ds lengths perm = Inr (split_at lengths perm)"
    by (simp add: random_split_def)
  from sum' have 2: "map length (split_at lengths perm) = lengths"
    by (simp add: map_length_split_at)
  from cc P(1) have dc: "distinct (concat (split_at lengths perm))" by simp
  have 3: "set (split_at lengths perm ! i) \<inter> set (split_at lengths perm ! j) = {}"
    if "i < length lengths" "j < length lengths" "i \<noteq> j" for i j
  proof (cases "i < j")
    case True
    with that distinct_concat_disjoint [OF dc, of i j] show ?thesis by simp
  next
    case False
    with that have "j < i" by simp
    with that distinct_concat_disjoint [OF dc, of j i] show ?thesis by auto
  qed
  have 4: "distinct (split_at lengths perm ! i)" if "i < length lengths" for i
  proof -
    from that have "split_at lengths perm ! i \<in> set (split_at lengths perm)" by simp
    with dc show ?thesis by (rule distinct_concat_parts)
  qed
  from cc P(2) have 5: "set (concat (split_at lengths perm)) = {0..<length ds}" by simp
  have 6: "mset (concat (map (subset ds) (split_at lengths perm))) = mset ds"
    unfolding subset_concat cc subset_def using assms by (rule mset_map_nth_order)
  have 7: "subset ds (split_at lengths perm ! i) ! k = ds ! (split_at lengths perm ! i ! k)"
    if "k < length (split_at lengths perm ! i)" for i k
    using that by (simp add: subset_def)
  from 1 2 3 4 5 6 7
  show "random_split ds lengths perm = Inr (split_at lengths perm)
           \<and> map length (split_at lengths perm) = lengths
           \<and> (\<forall>i<length lengths. \<forall>j<length lengths. i \<noteq> j \<longrightarrow>
                 set (split_at lengths perm ! i) \<inter> set (split_at lengths perm ! j) = {})
           \<and> (\<forall>i<length lengths. distinct (split_at lengths perm ! i))
           \<and> set (concat (split_at lengths perm)) = {0..<length ds}
           \<and> mset (concat (map (subset ds) (split_at lengths perm))) = mset ds
           \<and> (\<forall>i<length lengths. \<forall>k<length (split_at lengths perm ! i).
                 subset ds (split_at lengths perm ! i) ! k = ds ! (split_at lengths perm ! i ! k))"
    by blast
next
  assume h: "length x = length ds \<and> length y = length ds \<and> n_test < length ds"
  then have lx: "length x = length ds" and ly: "length y = length ds" and nt: "n_test < length ds"
    by blast+
  note P = perm_distinct [OF assms]
  let ?test = "take n_test perm"
  let ?train = "take (length x - n_test) (drop n_test perm)"
  from lx P(3) have tr: "?train = drop n_test perm" by simp
  from lx ly nt have split: "train_test_split x y n_test perm
      = Inr (subset x ?train, subset x ?test, subset y ?train, subset y ?test)"
    by (simp add: train_test_split_def Let_def)
  from P(3) nt have l1: "length (subset x ?test) = n_test" "length (subset y ?test) = n_test"
    by (simp_all add: subset_def)
  from P(3) lx have l2: "length (subset x ?train) = length ds - n_test"
    "length (subset y ?train) = length ds - n_test"
    by (simp_all add: subset_def)
  from P(2) lx have in_range: "\<forall>i \<in> set perm. i < length x" by simp
  have r1: "\<forall>i \<in> set ?train. i < length x"
    using in_range by (auto dest: in_set_takeD in_set_dropD)
  have r2: "\<forall>i \<in> set ?test. i < length x"
    using in_range by (auto dest: in_set_takeD)
  from lx ly have lxy: "length x = length y" by simp
  have "mset (zip (subset x ?train) (subset y ?train) @ zip (subset x ?test) (subset y ?test))
      = mset (subset (zip x y) ?train) + mset (subset (zip x y) ?test)"
    by (simp add: zip_subset [OF lxy r1] zip_subset [OF lxy r2])
  also have "\<dots> = mset (subset (zip x y) (?test @ ?train))"
    by (simp add: subset_def)
  also have "?test @ ?train = perm" unfolding tr by simp
  also have "mset (subset (zip x y) perm) = mset (zip x y)"
    unfolding subset_def
  proof (rule mset_map_nth_order)
    from assms lx ly show "mset perm = mset [0..<length (zip x y)]" by simp
  qed
  finally have m: "mset (zip (subset x ?train) (subset y ?train) @ zip (subset x ?test) (subset y ?test))
      = mset (zip x y)" .
  from split l1 l2 m
  show "\<exists>x_train x_test y_train y_test.
              train_test_split x y n_test perm = Inr (x_train, x_test, y_train, y_test)
              \<and> length x_test = n_test \<and> length y_test = n_test
              \<and> length x_train = length ds - n_test \<and> length y_train = length ds - n_test
              \<and> mset (zip x_train y_train @ zip x_test y_test) = mset (zip x y)"
    by blast
qed


lemma demo_perm: "mset [2, 0, 1] = mset [0..<length [(5.1 :: real, 0 :: int), (4.9, 1), (6.3, 2)]]"
  by (simp add: upt_rec add_mset_commute)

theorem split_is_a_partition_witness:
  "mset [2, 0, 1] = mset [0..<length [(5.1 :: real, 0 :: int), (4.9, 1), (6.3, 2)]]
   \<and> sum_list [2, 1] = length [(5.1 :: real, 0 :: int), (4.9, 1), (6.3, 2)]
   \<and> random_split [(5.1 :: real, 0 :: int), (4.9, 1), (6.3, 2)] [2, 1] [2, 0, 1]
       = Inr (split_at [2, 1] [2, 0, 1])
   \<and> split_at [2, 1] [2, 0, 1 :: nat] = [[2, 0], [1]]
   \<and> map (subset [(5.1 :: real, 0 :: int), (4.9, 1), (6.3, 2)]) [[2, 0], [1]]
       = [[(6.3, 2), (5.1, 0)], [(4.9, 1)]]
   \<and> mset (concat (map (subset [(5.1 :: real, 0 :: int), (4.9, 1), (6.3, 2)])
                      (split_at [2, 1] [2, 0, 1])))
       = mset [(5.1 :: real, 0 :: int), (4.9, 1), (6.3, 2)]"
proof -
  have s: "sum_list [2, 1] = length [(5.1 :: real, 0 :: int), (4.9, 1), (6.3, 2)]" by simp
  note T = split_is_a_partition [OF demo_perm, of "[2, 1]", THEN conjunct1, THEN mp, OF s]
  from T have 1: "random_split [(5.1 :: real, 0 :: int), (4.9, 1), (6.3, 2)] [2, 1] [2, 0, 1]
       = Inr (split_at [2, 1] [2, 0, 1])"
    by (rule conjunct1)
  from T have 2: "mset (concat (map (subset [(5.1 :: real, 0 :: int), (4.9, 1), (6.3, 2)])
                      (split_at [2, 1] [2, 0, 1])))
       = mset [(5.1 :: real, 0 :: int), (4.9, 1), (6.3, 2)]"
    by blast
  have 3: "split_at [2, 1] [2, 0, 1 :: nat] = [[2, 0], [1]]" by simp
  have 4: "map (subset [(5.1 :: real, 0 :: int), (4.9, 1), (6.3, 2)]) [[2, 0], [1]]
       = [[(6.3, 2), (5.1, 0)], [(4.9, 1)]]"
    by (simp add: subset_def)
  from demo_perm s 1 3 4 2 show ?thesis by (intro conjI)
qed

section \<open>The confusion matrix\<close>

lemma unique_labels_distinct: "distinct (unique_labels y_true y_pred)"
  by (simp add: unique_labels_def)

lemma unique_labels_set: "set (unique_labels y_true y_pred) = set y_true \<union> set y_pred"
  by (simp add: unique_labels_def)

text \<open>Each pair of labels falls into exactly one cell of the matrix.\<close>

lemma cell_of_pair:
  assumes "finite S" and "t \<in> S" and "p \<in> S"
  shows "(\<Sum>i\<in>S. \<Sum>j\<in>S. if t = i \<and> p = j then 1 else 0) = (1 :: nat)"
proof -
  have "(\<Sum>j\<in>S. if t = i \<and> p = j then 1 else 0) = (if t = i then 1 else (0 :: nat))" for i
  proof (cases "t = i")
    case True
    have "(\<Sum>j\<in>S. if p = j then 1 else 0) = (if p \<in> S then 1 else (0 :: nat))"
      using assms(1) by (simp add: sum.delta')
    with True assms(3) show ?thesis by simp
  next
    case False
    then show ?thesis by simp
  qed
  then have "(\<Sum>i\<in>S. \<Sum>j\<in>S. if t = i \<and> p = j then 1 else 0)
      = (\<Sum>i\<in>S. if t = i then 1 else (0 :: nat))"
    by simp
  also have "\<dots> = (if t \<in> S then 1 else 0)" using assms(1) by (simp add: sum.delta')
  finally show ?thesis using assms(2) by simp
qed

lemma cells_sum:
  assumes "finite S"
  shows "\<forall>(t, p) \<in> set ps. t \<in> S \<and> p \<in> S \<Longrightarrow>
    (\<Sum>i\<in>S. \<Sum>j\<in>S. length (filter (\<lambda>(t, p). t = i \<and> p = j) ps)) = length ps"
proof (induction ps)
  case Nil
  then show ?case by simp
next
  case (Cons tp ps)
  obtain t p where tp: "tp = (t, p)" by (cases tp)
  from Cons.prems tp have mem: "t \<in> S" "p \<in> S" and rest: "\<forall>(t, p) \<in> set ps. t \<in> S \<and> p \<in> S"
    by auto
  have "(\<Sum>i\<in>S. \<Sum>j\<in>S. length (filter (\<lambda>(t, p). t = i \<and> p = j) (tp # ps)))
      = (\<Sum>i\<in>S. \<Sum>j\<in>S. (if t = i \<and> p = j then 1 else 0)
                            + length (filter (\<lambda>(t, p). t = i \<and> p = j) ps))"
    unfolding tp by (intro sum.cong refl) simp
  also have "\<dots> = (\<Sum>i\<in>S. \<Sum>j\<in>S. if t = i \<and> p = j then 1 else 0)
                 + (\<Sum>i\<in>S. \<Sum>j\<in>S. length (filter (\<lambda>(t, p). t = i \<and> p = j) ps))"
    by (simp add: sum.distrib)
  also have "\<dots> = 1 + length ps"
    using cell_of_pair [OF assms mem] Cons.IH [OF rest] by simp
  finally show ?case by simp
qed

lemma diagonal_sum:
  assumes "finite S"
  shows "\<forall>(t, p) \<in> set ps. t \<in> S \<and> p \<in> S \<Longrightarrow>
    (\<Sum>i\<in>S. length (filter (\<lambda>(t, p). t = i \<and> p = i) ps))
      = length (filter (\<lambda>(t, p). t = p) ps)"
proof (induction ps)
  case Nil
  then show ?case by simp
next
  case (Cons tp ps)
  obtain t p where tp: "tp = (t, p)" by (cases tp)
  from Cons.prems tp have mem: "t \<in> S" and rest: "\<forall>(t, p) \<in> set ps. t \<in> S \<and> p \<in> S"
    by auto
  have "(\<Sum>i\<in>S. length (filter (\<lambda>(t, p). t = i \<and> p = i) (tp # ps)))
      = (\<Sum>i\<in>S. (if t = i \<and> p = i then 1 else 0)
                  + length (filter (\<lambda>(t, p). t = i \<and> p = i) ps))"
    unfolding tp by (intro sum.cong refl) simp
  also have "\<dots> = (\<Sum>i\<in>S. if t = i \<and> p = i then 1 else 0)
                 + (\<Sum>i\<in>S. length (filter (\<lambda>(t, p). t = i \<and> p = i) ps))"
    by (simp add: sum.distrib)
  also have "(\<Sum>i\<in>S. if t = i \<and> p = i then 1 else 0) = (if t = p then 1 else (0 :: nat))"
  proof (cases "t = p")
    case True
    then have "(\<Sum>i\<in>S. if t = i \<and> p = i then 1 else 0) = (\<Sum>i\<in>S. if t = i then 1 else (0 :: nat))"
      by (intro sum.cong refl) simp
    also have "\<dots> = (if t \<in> S then 1 else 0)" using assms by (simp add: sum.delta')
    finally show ?thesis using True mem by simp
  next
    case False
    then have "(\<Sum>i\<in>S. if t = i \<and> p = i then 1 else 0) = (\<Sum>i\<in>S. (0 :: nat))"
      by (intro sum.cong refl) auto
    with False show ?thesis by simp
  qed
  finally show ?case using Cons.IH [OF rest] unfolding tp by simp
qed

lemma zip_labels_in:
  "\<forall>(t, p) \<in> set (zip y_true y_pred). t \<in> set y_true \<union> set y_pred \<and> p \<in> set y_true \<union> set y_pred"
  by (auto dest: set_zip_leftD set_zip_rightD)

lemma confusion_matrix_value:
  "length y_true = length y_pred \<Longrightarrow>
   confusion_matrix y_true y_pred =
     Inr (map (\<lambda>i. map (\<lambda>j. length (filter (\<lambda>(t, p). t = i \<and> p = j) (zip y_true y_pred)))
                      (unique_labels y_true y_pred))
            (unique_labels y_true y_pred))"
  by (simp add: confusion_matrix_def Let_def)

lemma matrix_sum_cells:
  "matrix_sum (map (\<lambda>i. map (\<lambda>j. length (filter (\<lambda>(t, p). t = i \<and> p = j) (zip y_true y_pred)))
                      (unique_labels y_true y_pred))
            (unique_labels y_true y_pred)) = length (zip y_true y_pred)"
proof -
  let ?L = "unique_labels y_true y_pred"
  let ?c = "\<lambda>i j. length (filter (\<lambda>(t, p). t = i \<and> p = j) (zip y_true y_pred))"
  have "matrix_sum (map (\<lambda>i. map (?c i) ?L) ?L) = sum_list (map (\<lambda>i. sum_list (map (?c i) ?L)) ?L)"
    by (simp add: matrix_sum_def comp_def)
  also have "\<dots> = (\<Sum>i\<in>set ?L. \<Sum>j\<in>set ?L. ?c i j)"
    by (simp add: sum_list_distinct_conv_sum_set unique_labels_distinct)
  also have "\<dots> = length (zip y_true y_pred)"
    unfolding unique_labels_set by (rule cells_sum) (simp, rule zip_labels_in)
  finally show ?thesis .
qed

lemma trace_cells:
  "trace (map (\<lambda>i. map (\<lambda>j. length (filter (\<lambda>(t, p). t = i \<and> p = j) (zip y_true y_pred)))
                      (unique_labels y_true y_pred))
            (unique_labels y_true y_pred))
     = length (filter (\<lambda>(t, p). t = p) (zip y_true y_pred))"
proof -
  let ?L = "unique_labels y_true y_pred"
  let ?c = "\<lambda>i j. length (filter (\<lambda>(t, p). t = i \<and> p = j) (zip y_true y_pred))"
  have "trace (map (\<lambda>i. map (?c i) ?L) ?L) = sum_list (map (\<lambda>k. ?c (?L ! k) (?L ! k)) [0..<length ?L])"
    unfolding trace_def by (rule arg_cong [where f = sum_list]) simp
  also have "map (\<lambda>k. ?c (?L ! k) (?L ! k)) [0..<length ?L] = map (\<lambda>i. ?c i i) (map (\<lambda>k. ?L ! k) [0..<length ?L])"
    by simp
  also have "map (\<lambda>k. ?L ! k) [0..<length ?L] = ?L" by (rule map_nth)
  also have "sum_list (map (\<lambda>i. ?c i i) ?L) = (\<Sum>i\<in>set ?L. ?c i i)"
    by (simp add: sum_list_distinct_conv_sum_set unique_labels_distinct)
  also have "\<dots> = length (filter (\<lambda>(t, p). t = p) (zip y_true y_pred))"
    unfolding unique_labels_set by (rule diagonal_sum) (simp, rule zip_labels_in)
  finally show ?thesis .
qed

lemma count_equal_commute:
  "length (filter (\<lambda>(t, p). t = p) (zip a b)) = length (filter id (map (\<lambda>(x, y). x = y) (zip b a)))"
proof (induction a arbitrary: b)
  case Nil
  then show ?case by simp
next
  case (Cons x a)
  then show ?case by (cases b) auto
qed

lemma sum_eq_item_value:
  "length preds = length test_labels \<Longrightarrow> preds \<noteq> [] \<Longrightarrow>
   sum_eq_item preds test_labels
     = Inr (int (length (filter id (map (\<lambda>(x, y). x = y) (zip preds test_labels)))))"
  by (cases preds; cases test_labels) (simp_all add: sum_eq_item_def tensor_eq_def sum_item_def)

text \<open>
  Claim C9, as amended. For every pair of non-empty prediction and true-label vectors of
  equal length, the entries of the confusion matrix computed from them sum to the number
  of samples, and its trace is the number of correct predictions that the accuracy is
  computed from (\<^verbatim>\<open>sum(preds == test_labels).item()\<close>), so that the accuracy is the trace
  divided by the number of samples. On empty vectors the accuracy expression raises, as
  shown after the theorem.
\<close>

theorem confusion_matrix_is_consistent:
  assumes "length preds = length test_labels" and "preds \<noteq> []"
  shows "\<exists>m. confusion_matrix test_labels preds = Inr m
     \<and> matrix_sum m = length preds
     \<and> sum_eq_item preds test_labels = Inr (int (trace m))
     \<and> test_accuracy preds test_labels = Inr (real (trace m) / real (length preds))"
proof -
  let ?m = "map (\<lambda>i. map (\<lambda>j. length (filter (\<lambda>(t, p). t = i \<and> p = j) (zip test_labels preds)))
                      (unique_labels test_labels preds))
            (unique_labels test_labels preds)"
  from assms(1) have len: "length test_labels = length preds" by simp
  from confusion_matrix_value [OF len] have 1: "confusion_matrix test_labels preds = Inr ?m" .
  from matrix_sum_cells [of test_labels preds] len have 2: "matrix_sum ?m = length preds" by simp
  have tr: "trace ?m = length (filter id (map (\<lambda>(x, y). x = y) (zip preds test_labels)))"
    by (simp only: trace_cells count_equal_commute)
  from sum_eq_item_value [OF assms] tr
  have 3: "sum_eq_item preds test_labels = Inr (int (trace ?m))" by simp
  from assms(2) have "int (length preds) \<noteq> 0" by simp
  with 3 have 4: "test_accuracy preds test_labels = Inr (real (trace ?m) / real (length preds))"
    by (simp add: test_accuracy_def truediv_def)
  from 1 2 3 4 show ?thesis by blast
qed

lemma demo_confusion_matrix:
  "confusion_matrix [0, 1, 1, 2] [0, 2, 1, 1] = Inr [[1, 0, 0], [0, 1, 1], [0, 1, 0]]"
  by (simp add: confusion_matrix_def unique_labels_def Let_def)

theorem confusion_matrix_is_consistent_witness:
  "length [0, 2, 1, 1 :: int] = length [0, 1, 1, 2 :: int]
   \<and> [0, 2, 1, 1 :: int] \<noteq> []
   \<and> confusion_matrix [0, 1, 1, 2] [0, 2, 1, 1] = Inr [[1, 0, 0], [0, 1, 1], [0, 1, 0]]
   \<and> matrix_sum [[1, 0, 0], [0, 1, 1], [0, 1, 0]] = length [0, 2, 1, 1 :: int]
   \<and> trace [[1, 0, 0], [0, 1, 1], [0, 1, 0]] = 2
   \<and> sum_eq_item [0, 2, 1, 1] [0, 1, 1, 2] = Inr (int (trace [[1, 0, 0], [0, 1, 1], [0, 1, 0]]))
   \<and> test_accuracy [0, 2, 1, 1] [0, 1, 1, 2]
       = Inr (real (trace [[1, 0, 0], [0, 1, 1], [0, 1, 0]]) / real (length [0, 2, 1, 1 :: int]))"
proof -
  have len: "length [0, 2, 1, 1 :: int] = length [0, 1, 1, 2 :: int]" by simp
  have ne: "[0, 2, 1, 1 :: int] \<noteq> []" by simp
  from confusion_matrix_is_consistent [OF len ne] obtain m where
    m: "confusion_matrix [0, 1, 1, 2] [0, 2, 1, 1] = Inr m"
    and s: "matrix_sum m = length [0, 2, 1, 1 :: int]"
    and a: "sum_eq_item [0, 2, 1, 1] [0, 1, 1, 2] = Inr (int (trace m))"
      "test_accuracy [0, 2, 1, 1] [0, 1, 1, 2] = Inr (real (trace m) / real (length [0, 2, 1, 1 :: int]))"
    by blast
  from m demo_confusion_matrix have meq: "m = [[1, 0, 0], [0, 1, 1], [0, 1, 0]]" by simp
  have t: "trace [[1, 0, 0], [0, 1, 1], [0, 1, 0]] = 2"
    by (simp add: trace_def upt_rec)
  from len ne demo_confusion_matrix s [unfolded meq] t a [unfolded meq] show ?thesis
    by (intro conjI)
qed

text \<open>
  The claim as stated, for every pair of vectors of equal length, fails on the empty pair:
  the vectors have equal length, and \<^verbatim>\<open>sum(preds == test_labels)\<close> is then the integer 0 of
  Python's \<open>sum\<close>, which has no \<open>item\<close>, so the accuracy expression raises instead of
  yielding a quotient.
\<close>

theorem accuracy_of_empty_vectors_raises:
  "length ([] :: int list) = length ([] :: int list)
   \<and> sum_eq_item [] [] = Inl AttributeError
   \<and> test_accuracy [] [] = Inl AttributeError"
  by (simp add: test_accuracy_def sum_eq_item_def tensor_eq_def sum_item_def)

end
